theory Spec2Isabelle
  imports Complex_Main "HOL-Library.AList" "HOL-Library.Code_Target_Nat"
begin

section \<open>Annual Performance Analyzer: the alignment and normalization pipeline\<close>

text \<open>
  A shallow embedding of \<^verbatim>\<open>src/pages/2_Annual_Performance.py\<close>:
  \<^verbatim>\<open>process_annual_data\<close>, \<^verbatim>\<open>create_hover_text\<close>, \<^verbatim>\<open>create_performance_chart\<close>,
  \<^verbatim>\<open>create_summary_table\<close> and \<^verbatim>\<open>process_and_display_data\<close>, together with the
  pandas operations they call.
\<close>

subsection \<open>Close prices: float64 cells\<close>

text \<open>
  A cell of the \<^verbatim>\<open>Close\<close> column is a float64. The special values are kept apart:
  \<open>NaN\<close> (which pandas reads as "missing"), the two infinities and the negative zero;
  \<open>Fin 0\<close> is the positive zero. Arithmetic on finite values is exact rational
  arithmetic: rounding to 53 bits, overflow and underflow are not part of this model.
  pandas evaluates the operators under \<^verbatim>\<open>np.errstate(all="ignore")\<close>, so a division by
  zero yields an infinity or \<open>NaN\<close> and raises nothing.
\<close>

datatype pyfloat = NaN | NInf | NZero | Fin rat | PInf

fun isnan :: "pyfloat \<Rightarrow> bool" where
  "isnan NaN = True"
| "isnan _ = False"

fun is_inf :: "pyfloat \<Rightarrow> bool" where
  "is_inf NInf = True"
| "is_inf PInf = True"
| "is_inf _ = False"

fun rat_of :: "pyfloat \<Rightarrow> rat" where
  "rat_of (Fin q) = q"
| "rat_of _ = 0"

fun is_zero :: "pyfloat \<Rightarrow> bool" where
  "is_zero NZero = True"
| "is_zero (Fin q) = (q = 0)"
| "is_zero _ = False"

fun signbit :: "pyfloat \<Rightarrow> bool" where
  "signbit NInf = True"
| "signbit NZero = True"
| "signbit (Fin q) = (q < 0)"
| "signbit _ = False"

definition signed_inf :: "bool \<Rightarrow> pyfloat" where
  "signed_inf s = (if s then NInf else PInf)"

definition signed_zero :: "bool \<Rightarrow> pyfloat" where
  "signed_zero s = (if s then NZero else Fin 0)"

definition fdiv :: "pyfloat \<Rightarrow> pyfloat \<Rightarrow> pyfloat" where
  "fdiv a b =
     (if isnan a \<or> isnan b then NaN
      else if (is_inf a \<and> is_inf b) \<or> (is_zero a \<and> is_zero b) then NaN
      else if is_inf a \<or> is_zero b then signed_inf (signbit a \<noteq> signbit b)
      else if is_zero a \<or> is_inf b then signed_zero (signbit a \<noteq> signbit b)
      else Fin (rat_of a / rat_of b))"

definition fsub :: "pyfloat \<Rightarrow> pyfloat \<Rightarrow> pyfloat" where
  "fsub a b =
     (if isnan a \<or> isnan b then NaN
      else if is_inf a \<and> is_inf b then (if a = b then NaN else a)
      else if is_inf a then a
      else if is_inf b then signed_inf (\<not> signbit b)
      else if rat_of a = rat_of b then (if a = NZero \<and> b = Fin 0 then NZero else Fin 0)
      else Fin (rat_of a - rat_of b))"

definition fmul :: "pyfloat \<Rightarrow> pyfloat \<Rightarrow> pyfloat" where
  "fmul a b =
     (if isnan a \<or> isnan b then NaN
      else if (is_inf a \<and> is_zero b) \<or> (is_zero a \<and> is_inf b) then NaN
      else if is_inf a \<or> is_inf b then signed_inf (signbit a \<noteq> signbit b)
      else if is_zero a \<or> is_zero b then signed_zero (signbit a \<noteq> signbit b)
      else Fin (rat_of a * rat_of b))"

subsection \<open>Timestamps of a daily index\<close>

text \<open>
  The source reads a timestamp only through \<^verbatim>\<open>.year\<close>, \<^verbatim>\<open>.month\<close>, \<^verbatim>\<open>.day\<close> and
  \<^verbatim>\<open>strftime\<close> of the date; the index of a daily download holds one midnight
  timestamp per trading day, so a timestamp is its calendar date.
\<close>

record timestamp =
  year :: int
  month :: nat
  day :: nat

datatype failure = ValueError | KeyError | IndexError | DuplicateLabel

definition is_leap :: "int \<Rightarrow> bool" where
  "is_leap y = (y mod 4 = 0 \<and> (y mod 100 \<noteq> 0 \<or> y mod 400 = 0))"

definition days_in_month :: "int \<Rightarrow> nat \<Rightarrow> nat" where
  "days_in_month y m =
     (if m = 2 then (if is_leap y then 29 else 28)
      else if m = 4 \<or> m = 6 \<or> m = 9 \<or> m = 11 then 30 else 31)"

definition valid_date :: "timestamp \<Rightarrow> bool" where
  "valid_date t =
     (1 \<le> year t \<and> year t \<le> 9999 \<and> 1 \<le> month t \<and> month t \<le> 12 \<and>
      1 \<le> day t \<and> day t \<le> days_in_month (year t) (month t))"

text \<open>\<^verbatim>\<open>pd.Timestamp(y, m, d)\<close> raises \<^verbatim>\<open>ValueError\<close> for a date that does not exist.\<close>

definition pd_Timestamp :: "int \<Rightarrow> nat \<Rightarrow> nat \<Rightarrow> failure + timestamp" where
  "pd_Timestamp y m d =
     (let t = \<lparr>year = y, month = m, day = d\<rparr>
      in if valid_date t then Inr t else Inl ValueError)"

text \<open>Chronological order of two timestamps.\<close>

definition ts_less :: "timestamp \<Rightarrow> timestamp \<Rightarrow> bool" where
  "ts_less a b =
     (year a < year b \<or> (year a = year b \<and>
        (month a < month b \<or> (month a = month b \<and> day a < day b))))"

subsection \<open>Series\<close>

text \<open>
  A \<^verbatim>\<open>pd.Series\<close> of floats over a \<^verbatim>\<open>DatetimeIndex\<close>: the rows in order, each a label
  and a value. The data frame is read only through its index and its \<^verbatim>\<open>Close\<close> column,
  so it is the series of its closes.
\<close>

type_synonym series = "(timestamp \<times> pyfloat) list"

definition index :: "series \<Rightarrow> timestamp list" where
  "index s = map fst s"

definition values_of :: "series \<Rightarrow> pyfloat list" where
  "values_of s = map snd s"

text \<open>
  \<^verbatim>\<open>pd.Series(values, index=labels)\<close> raises \<^verbatim>\<open>ValueError\<close> when the two lengths
  differ.
\<close>

definition Series :: "pyfloat list \<Rightarrow> timestamp list \<Rightarrow> failure + series" where
  "Series vs labels = (if length vs = length labels then Inr (zip labels vs) else Inl ValueError)"

text \<open>\<^verbatim>\<open>first_valid_index\<close>: the label of the first row whose value is not missing.\<close>

fun first_valid_index :: "series \<Rightarrow> timestamp option" where
  "first_valid_index [] = None"
| "first_valid_index ((t, v) # s) = (if isnan v then first_valid_index s else Some t)"

text \<open>
  \<^verbatim>\<open>.loc[label]\<close> is a scalar when exactly one row carries the label and raises
  \<^verbatim>\<open>KeyError\<close> when none does. When several rows carry it, pandas returns a sub-series
  and line 130 is no longer a division by a scalar: a frame with a repeated date is
  outside the data this program downloads, and the model reports it as
  \<open>DuplicateLabel\<close> instead of computing a result for it.
\<close>

definition loc :: "series \<Rightarrow> timestamp \<Rightarrow> failure + pyfloat" where
  "loc s k =
     (case filter (\<lambda>(t, v). t = k) s of
        [] \<Rightarrow> Inl KeyError
      | [(t, v)] \<Rightarrow> Inr v
      | _ \<Rightarrow> Inl DuplicateLabel)"

text \<open>
  \<^verbatim>\<open>ffill\<close> carries the last value that is not missing into the missing rows after it;
  \<open>ffill_from\<close> holds the value carried so far (\<open>NaN\<close> while there is none).
  \<^verbatim>\<open>bfill\<close> gives a missing row the value of the next row that is not missing.
\<close>

fun ffill_from :: "pyfloat \<Rightarrow> pyfloat list \<Rightarrow> pyfloat list" where
  "ffill_from c [] = []"
| "ffill_from c (v # vs) = (if isnan v then c # ffill_from c vs else v # ffill_from v vs)"

fun bfill_values :: "pyfloat list \<Rightarrow> pyfloat list" where
  "bfill_values [] = []"
| "bfill_values (v # vs) =
     (let r = bfill_values vs
      in (if isnan v then (case r of [] \<Rightarrow> NaN | w # _ \<Rightarrow> w) else v) # r)"

definition ffill :: "series \<Rightarrow> series" where
  "ffill s = zip (index s) (ffill_from NaN (values_of s))"

definition bfill :: "series \<Rightarrow> series" where
  "bfill s = zip (index s) (bfill_values (values_of s))"

subsection \<open>\<^verbatim>\<open>process_annual_data\<close>\<close>

text \<open>
  The three dictionaries of the result, each an association list in insertion order
  (a Python \<^verbatim>\<open>dict\<close>): assigning to a key that is present replaces its value in place,
  assigning to a new key appends, which is \<^const>\<open>AList.update\<close>.
\<close>

record annual_results =
  normalized :: "(int \<times> series) list"
  original :: "(int \<times> series) list"
  dates :: "(int \<times> timestamp list) list"

definition empty_results :: annual_results where
  "empty_results = \<lparr>normalized = [], original = [], dates = []\<rparr>"

text \<open>Line 116: the rows of the frame whose index falls in the year.\<close>

definition year_window :: "series \<Rightarrow> int \<Rightarrow> series" where
  "year_window data y = filter (\<lambda>(t, c). year t = y) data"

text \<open>Lines 131 to 133: the list comprehension stops at the first timestamp that raises.\<close>

fun common_year_index :: "timestamp list \<Rightarrow> failure + timestamp list" where
  "common_year_index [] = Inr []"
| "common_year_index (d # ds) =
     (case pd_Timestamp 2000 (month d) (day d) of
        Inl e \<Rightarrow> Inl e
      | Inr t \<Rightarrow> (case common_year_index ds of Inl e \<Rightarrow> Inl e | Inr ts \<Rightarrow> Inr (t # ts)))"

text \<open>Line 130: \<^verbatim>\<open>((year_data / first_value) - 1) * 100\<close>, row by row.\<close>

definition norm_value :: "pyfloat \<Rightarrow> pyfloat \<Rightarrow> pyfloat" where
  "norm_value first_value v = fmul (fsub (fdiv v first_value) (Fin 1)) (Fin 100)"

definition norm_data :: "pyfloat \<Rightarrow> series \<Rightarrow> series" where
  "norm_data first_value s = map (\<lambda>(t, v). (t, norm_value first_value v)) s"

text \<open>The body of the loop over the years (lines 116 to 134), on the dictionaries so far.\<close>

definition process_year :: "series \<Rightarrow> int \<Rightarrow> annual_results \<Rightarrow> failure + annual_results" where
  "process_year data y acc =
     (let year_data = year_window data y
      in if length year_data > 5 then
           (case first_valid_index year_data of
              None \<Rightarrow> Inr acc
            | Some first_valid_idx \<Rightarrow>
                (case loc year_data first_valid_idx of
                   Inl e \<Rightarrow> Inl e
                 | Inr first_value \<Rightarrow>
                     (let year_data = bfill (ffill year_data);
                          acc = acc\<lparr>original := AList.update y year_data (original acc)\<rparr>;
                          acc = acc\<lparr>dates := AList.update y (index year_data) (dates acc)\<rparr>
                      in case common_year_index (index year_data) of
                           Inl e \<Rightarrow> Inl e
                         | Inr cyi \<Rightarrow>
                             (case Series (values_of (norm_data first_value year_data)) cyi of
                                Inl e \<Rightarrow> Inl e
                              | Inr s \<Rightarrow>
                                  Inr (acc\<lparr>normalized := AList.update y s (normalized acc)\<rparr>)))))
         else Inr acc)"

fun process_years :: "series \<Rightarrow> int list \<Rightarrow> annual_results \<Rightarrow> failure + annual_results" where
  "process_years data [] acc = Inr acc"
| "process_years data (y # ys) acc =
     (case process_year data y acc of
        Inl e \<Rightarrow> Inl e
      | Inr acc' \<Rightarrow> process_years data ys acc')"

text \<open>
  \<^verbatim>\<open>process_annual_data\<close> returns \<^verbatim>\<open>None\<close> without a frame or without years, and the
  three dictionaries otherwise.
\<close>

definition process_annual_data ::
  "series option \<Rightarrow> int list \<Rightarrow> failure + annual_results option" where
  "process_annual_data data years =
     (case data of
        None \<Rightarrow> Inr None
      | Some d \<Rightarrow>
          if years = [] then Inr None
          else (case process_years d years empty_results of
                  Inl e \<Rightarrow> Inl e
                | Inr r \<Rightarrow> Inr (Some r)))"

subsection \<open>Rendering numbers and dates\<close>

text \<open>
  \<^verbatim>\<open>f"{x:.2f}"\<close>: two decimals, the value rounded to the nearest hundredth with ties
  to the even one; the sign is kept when the rounded value is zero; \<^verbatim>\<open>nan\<close>, \<^verbatim>\<open>inf\<close> and
  \<^verbatim>\<open>-inf\<close> for the special values.
\<close>

definition digit_char :: "nat \<Rightarrow> char" where
  "digit_char n = ''0123456789'' ! n"

fun nat_digits :: "nat \<Rightarrow> string" where
  "nat_digits n = (if n < 10 then [digit_char n] else nat_digits (n div 10) @ [digit_char (n mod 10)])"

declare nat_digits.simps [simp del]

definition zfill2 :: "nat \<Rightarrow> string" where
  "zfill2 n = (if n < 10 then CHR ''0'' # nat_digits n else nat_digits n)"

definition round_half_even :: "rat \<Rightarrow> nat" where
  "round_half_even q =
     (let f = nat \<lfloor>q\<rfloor>; r = q - of_nat f
      in if r > 1 / 2 \<or> (r = 1 / 2 \<and> odd f) then f + 1 else f)"

fun fmt_2f :: "pyfloat \<Rightarrow> string" where
  "fmt_2f NaN = ''nan''"
| "fmt_2f PInf = ''inf''"
| "fmt_2f NInf = ''-inf''"
| "fmt_2f NZero = ''-0.00''"
| "fmt_2f (Fin q) =
     (let n = round_half_even (\<bar>q\<bar> * 100)
      in (if q < 0 then ''-'' else []) @ nat_digits (n div 100) @ ''.'' @ zfill2 (n mod 100))"

text \<open>\<^verbatim>\<open>strftime('%Y-%m-%d')\<close> and \<^verbatim>\<open>strftime('%A')\<close> (Zeller's congruence, Monday first).\<close>

definition strftime_Ymd :: "timestamp \<Rightarrow> string" where
  "strftime_Ymd t = nat_digits (nat (year t)) @ ''-'' @ zfill2 (month t) @ ''-'' @ zfill2 (day t)"

definition weekday :: "timestamp \<Rightarrow> nat" where
  "weekday t =
     (let yy = (if month t < 3 then year t - 1 else year t);
          mm = (if month t < 3 then month t + 12 else month t);
          h = (int (day t) + (13 * (int mm + 1)) div 5 + yy mod 100 + (yy mod 100) div 4
                 + (yy div 100) div 4 + 5 * (yy div 100)) mod 7
      in nat ((h + 5) mod 7))"

definition strftime_A :: "timestamp \<Rightarrow> string" where
  "strftime_A t =
     [''Monday'', ''Tuesday'', ''Wednesday'', ''Thursday'', ''Friday'', ''Saturday'', ''Sunday'']
       ! weekday t"

text \<open>\<^verbatim>\<open>str.upper\<close> on the ASCII letters of a ticker symbol.\<close>

definition upper :: "string \<Rightarrow> string" where
  "upper s =
     map (\<lambda>c. let n = (of_char c :: nat) in if 97 \<le> n \<and> n \<le> 122 then char_of (n - 32) else c) s"

subsection \<open>\<^verbatim>\<open>create_hover_text\<close>\<close>

definition hover_label :: "timestamp \<Rightarrow> pyfloat \<Rightarrow> pyfloat \<Rightarrow> string" where
  "hover_label actual_date v perf_value =
     ''<b>Date</b>: '' @ strftime_Ymd actual_date @ ''<br>''
     @ ''<b>Day</b>: '' @ strftime_A actual_date @ ''<br>''
     @ ''<b>Value</b>: '' @ fmt_2f v @ ''<br>''
     @ ''<b>Performance</b>: '' @ fmt_2f perf_value @ ''%''"

text \<open>
  The loop of lines 213 to 222 from position \<open>j\<close> on. \<^verbatim>\<open>original_series.iloc[j]\<close> raises
  \<^verbatim>\<open>IndexError\<close> beyond the end of the series.
\<close>

fun hover_loop :: "nat \<Rightarrow> timestamp list \<Rightarrow> series \<Rightarrow> series \<Rightarrow> failure + string list" where
  "hover_loop j actual_dates original_series [] = Inr []"
| "hover_loop j actual_dates original_series ((t, perf_value) # rest) =
     (if j < length actual_dates then
        (if j < length original_series then
           (case hover_loop (Suc j) actual_dates original_series rest of
              Inl e \<Rightarrow> Inl e
            | Inr hs \<Rightarrow>
                Inr (hover_label (actual_dates ! j) (snd (original_series ! j)) perf_value # hs))
         else Inl IndexError)
      else hover_loop (Suc j) actual_dates original_series rest)"

definition create_hover_text :: "timestamp list \<Rightarrow> series \<Rightarrow> series \<Rightarrow> failure + string list" where
  "create_hover_text actual_dates original_series year_series =
     hover_loop 0 actual_dates original_series year_series"

subsection \<open>\<^verbatim>\<open>create_performance_chart\<close>\<close>

definition COLOR_PALETTE :: "string list" where
  "COLOR_PALETTE =
     [''#d62728'', ''#1f77b4'', ''#ff7f0e'', ''#2ca02c'', ''#9467bd'',
      ''#8c564b'', ''#e377c2'', ''#7f7f7f'', ''#bcbd22'', ''#17becf'']"

text \<open>A \<^verbatim>\<open>go.Scatter\<close> trace, with the arguments that vary from trace to trace.\<close>

record trace =
  trace_x :: "timestamp list"
  trace_y :: "pyfloat list"
  trace_name :: string
  line_color :: string
  hovertext :: "string list option"
  customdata :: "(string \<times> pyfloat \<times> pyfloat) list"

record figure =
  traces :: "trace list"
  title :: string
  yaxis_title :: string
  ticksuffix :: string

text \<open>\<^verbatim>\<open>str(year)\<close>.\<close>

definition str_int :: "int \<Rightarrow> string" where
  "str_int i = (if i < 0 then ''-'' @ nat_digits (nat (- i)) else nat_digits (nat i))"

text \<open>Python's \<^verbatim>\<open>zip\<close> of three sequences stops with the shortest.\<close>

fun zip3 :: "'a list \<Rightarrow> 'b list \<Rightarrow> 'c list \<Rightarrow> ('a \<times> 'b \<times> 'c) list" where
  "zip3 (a # as) (b # bs) (c # cs) = (a, b, c) # zip3 as bs cs"
| "zip3 _ _ _ = []"

text \<open>
  The body of the loop of lines 155 to 187 for a year that is a key of
  \<^verbatim>\<open>annual_data\<close>; a dictionary read of a missing key raises \<^verbatim>\<open>KeyError\<close>.
\<close>

definition year_trace ::
  "annual_results \<Rightarrow> bool \<Rightarrow> nat \<Rightarrow> int \<Rightarrow> series \<Rightarrow> failure + trace" where
  "year_trace annual_results show_percent i y year_series =
     (case (map_of (original annual_results) y, map_of (dates annual_results) y) of
        (Some original_series, Some actual_dates) \<Rightarrow>
          (let y_data = (if show_percent then values_of year_series
                         else values_of original_series);
               xs = index year_series
           in case create_hover_text actual_dates original_series year_series of
                Inl e \<Rightarrow> Inl e
              | Inr hover_text \<Rightarrow>
                  (let custom_data =
                         map (\<lambda>(d, p, v). (strftime_Ymd d, p, v))
                           (zip3 actual_dates (values_of original_series) (values_of year_series))
                   in Inr \<lparr>trace_x = xs, trace_y = y_data, trace_name = str_int y,
                           line_color = COLOR_PALETTE ! (i mod length COLOR_PALETTE),
                           hovertext = (if length hover_text = length xs then Some hover_text
                                        else None),
                           customdata = custom_data\<rparr>))
      | _ \<Rightarrow> Inl KeyError)"

fun chart_loop ::
  "annual_results \<Rightarrow> bool \<Rightarrow> nat \<Rightarrow> int list \<Rightarrow> failure + trace list" where
  "chart_loop annual_results show_percent i [] = Inr []"
| "chart_loop annual_results show_percent i (y # ys) =
     (case map_of (normalized annual_results) y of
        None \<Rightarrow> chart_loop annual_results show_percent (Suc i) ys
      | Some year_series \<Rightarrow>
          (case year_trace annual_results show_percent i y year_series of
             Inl e \<Rightarrow> Inl e
           | Inr tr \<Rightarrow>
               (case chart_loop annual_results show_percent (Suc i) ys of
                  Inl e \<Rightarrow> Inl e
                | Inr trs \<Rightarrow> Inr (tr # trs))))"

definition create_performance_chart ::
  "annual_results \<Rightarrow> string \<Rightarrow> int list \<Rightarrow> bool \<Rightarrow> failure + figure" where
  "create_performance_chart annual_results ticker_symbol years_to_display show_percent =
     (case chart_loop annual_results show_percent 0 years_to_display of
        Inl e \<Rightarrow> Inl e
      | Inr trs \<Rightarrow>
          Inr \<lparr>traces = trs,
               title = upper ticker_symbol @ '' - Annual ''
                         @ (if show_percent then ''Performance (%)'' else ''Value''),
               yaxis_title = (if show_percent then ''Performance (%)'' else ''Value''),
               ticksuffix = (if show_percent then ''%'' else [])\<rparr>)"

subsection \<open>\<^verbatim>\<open>create_summary_table\<close>\<close>

text \<open>\<^verbatim>\<open>.iloc[-1]\<close>: the last value by position, \<^verbatim>\<open>IndexError\<close> on an empty series.\<close>

definition iloc_last :: "series \<Rightarrow> failure + pyfloat" where
  "iloc_last s = (if s = [] then Inl IndexError else Inr (snd (last s)))"

text \<open>
  The loop of lines 234 to 238 on the two dictionaries \<^verbatim>\<open>year_end_perf\<close> and
  \<^verbatim>\<open>year_end_value\<close>.
\<close>

fun year_end_loop ::
  "(int \<times> series) list \<Rightarrow> (int \<times> series) list \<Rightarrow> int list \<Rightarrow>
   (int \<times> pyfloat) list \<times> (int \<times> pyfloat) list \<Rightarrow>
   failure + (int \<times> pyfloat) list \<times> (int \<times> pyfloat) list" where
  "year_end_loop annual_data annual_original [] acc = Inr acc"
| "year_end_loop annual_data annual_original (y # ys) (year_end_perf, year_end_value) =
     (case map_of annual_data y of
        None \<Rightarrow> year_end_loop annual_data annual_original ys (year_end_perf, year_end_value)
      | Some s \<Rightarrow>
          if s = [] then
            year_end_loop annual_data annual_original ys (year_end_perf, year_end_value)
          else
            (case iloc_last s of
               Inl e \<Rightarrow> Inl e
             | Inr perf \<Rightarrow>
                 (case map_of annual_original y of
                    None \<Rightarrow> Inl KeyError
                  | Some orig \<Rightarrow>
                      (case iloc_last orig of
                         Inl e \<Rightarrow> Inl e
                       | Inr v \<Rightarrow>
                           year_end_loop annual_data annual_original ys
                             (AList.update y perf year_end_perf,
                              AList.update y v year_end_value)))))"

text \<open>
  The table is the list of its rows: the year (the index), the year-end value and the
  year performance, both rendered with two decimals. \<^verbatim>\<open>pd.DataFrame\<close> raises
  \<^verbatim>\<open>ValueError\<close> for columns of different lengths.
\<close>

type_synonym summary_table = "(int \<times> string \<times> string) list"

definition create_summary_table ::
  "(int \<times> series) list \<Rightarrow> (int \<times> series) list \<Rightarrow> int list \<Rightarrow>
   failure + summary_table option" where
  "create_summary_table annual_data annual_original years_to_display =
     (case year_end_loop annual_data annual_original years_to_display ([], []) of
        Inl e \<Rightarrow> Inl e
      | Inr (year_end_perf, year_end_value) \<Rightarrow>
          if year_end_perf \<noteq> [] then
            (if length year_end_value = length year_end_perf then
               Inr (Some (zip (map fst year_end_perf)
                             (zip (map (fmt_2f \<circ> snd) year_end_value)
                                  (map (fmt_2f \<circ> snd) year_end_perf))))
             else Inl ValueError)
          else Inr None)"

subsection \<open>\<^verbatim>\<open>process_and_display_data\<close>\<close>

text \<open>
  What the page shows for a request. The download of \<^verbatim>\<open>get_asset_data\<close> is an input:
  the frame it returned, or \<^verbatim>\<open>None\<close>.
\<close>

datatype page =
    Rendered figure "summary_table option"
  | NoCompleteDataWarning
  | FetchError
  | SelectYearWarning

definition process_and_display_data ::
  "series option \<Rightarrow> string \<Rightarrow> int list \<Rightarrow> bool \<Rightarrow> failure + page" where
  "process_and_display_data asset_data ticker_symbol years_to_display show_percent =
     (if asset_data \<noteq> None \<and> years_to_display \<noteq> [] then
        (case process_annual_data asset_data years_to_display of
           Inl e \<Rightarrow> Inl e
         | Inr None \<Rightarrow> Inr NoCompleteDataWarning
         | Inr (Some annual_results) \<Rightarrow>
             if normalized annual_results \<noteq> [] then
               (case create_performance_chart annual_results ticker_symbol years_to_display
                       show_percent of
                  Inl e \<Rightarrow> Inl e
                | Inr fig \<Rightarrow>
                    (case create_summary_table (normalized annual_results)
                            (original annual_results) years_to_display of
                       Inl e \<Rightarrow> Inl e
                     | Inr summary_df \<Rightarrow> Inr (Rendered fig summary_df)))
             else Inr NoCompleteDataWarning)
      else if years_to_display \<noteq> [] then Inr FetchError
      else Inr SelectYearWarning)"

subsection \<open>Vocabulary of the properties\<close>

text \<open>
  The frames the program downloads have one row per trading day and an index of
  calendar dates that exist.
\<close>

definition well_formed :: "series \<Rightarrow> bool" where
  "well_formed data = (distinct (index data) \<and> (\<forall>t\<in>set (index data). valid_date t))"

text \<open>The baseline of a window: its first close that is not missing, by position.\<close>

definition baseline :: "series \<Rightarrow> pyfloat option" where
  "baseline s = find (\<lambda>v. \<not> isnan v) (values_of s)"

text \<open>A year survives when its window has more than 5 rows and a close that is not missing.\<close>

definition qualifies :: "series \<Rightarrow> int \<Rightarrow> bool" where
  "qualifies data y =
     (length (year_window data y) > 5 \<and> (\<exists>v\<in>set (values_of (year_window data y)). \<not> isnan v))"

text \<open>The keys of a dictionary.\<close>

definition keys :: "('k \<times> 'v) list \<Rightarrow> 'k set" where
  "keys d = fst ` set d"

text \<open>The entries that the loop body stores for a surviving year.\<close>

definition synthetic_date :: "timestamp \<Rightarrow> timestamp" where
  "synthetic_date d = \<lparr>year = 2000, month = month d, day = day d\<rparr>"

definition year_filled :: "series \<Rightarrow> int \<Rightarrow> series" where
  "year_filled data y = bfill (ffill (year_window data y))"

definition year_normalized :: "series \<Rightarrow> int \<Rightarrow> series" where
  "year_normalized data y =
     zip (map synthetic_date (index (year_window data y)))
         (map (norm_value (the (baseline (year_window data y)))) (values_of (year_filled data y)))"

definition year_entry :: "series \<Rightarrow> int \<Rightarrow> annual_results \<Rightarrow> annual_results" where
  "year_entry data y acc =
     (if qualifies data y
      then \<lparr>normalized = AList.update y (year_normalized data y) (normalized acc),
            original = AList.update y (year_filled data y) (original acc),
            dates = AList.update y (index (year_window data y)) (dates acc)\<rparr>
      else acc)"

fun year_entries :: "series \<Rightarrow> int list \<Rightarrow> annual_results \<Rightarrow> annual_results" where
  "year_entries data [] acc = acc"
| "year_entries data (y # ys) acc = year_entries data ys (year_entry data y acc)"

text \<open>
  The keys of a dictionary filled in the order of a list: each element at its first
  occurrence.
\<close>

definition insert_key :: "'k list \<Rightarrow> 'k \<Rightarrow> 'k list" where
  "insert_key ks y = (if y \<in> set ks then ks else ks @ [y])"

definition first_occurrences :: "'k list \<Rightarrow> 'k list" where
  "first_occurrences ys = foldl insert_key [] ys"

text \<open>A year has rows in a dictionary when it is a key and its series is not empty.\<close>

definition has_rows :: "(int \<times> series) list \<Rightarrow> int \<Rightarrow> bool" where
  "has_rows d y = (case map_of d y of Some s \<Rightarrow> s \<noteq> [] | None \<Rightarrow> False)"

definition last_value :: "(int \<times> series) list \<Rightarrow> int \<Rightarrow> pyfloat" where
  "last_value d y = snd (last (the (map_of d y)))"

definition summary_years :: "summary_table option \<Rightarrow> int set" where
  "summary_years tbl = (case tbl of None \<Rightarrow> {} | Some rows \<Rightarrow> fst ` set rows)"

text \<open>
  What the two fills leave at position \<open>i\<close>, in the words of the specification: the last
  known close at or before \<open>i\<close> (forward fill, interior and trailing gaps), and in a
  leading gap the first known close after it (backward fill).
\<close>

definition fill_spec :: "pyfloat list \<Rightarrow> nat \<Rightarrow> pyfloat" where
  "fill_spec vs i =
     (case find (\<lambda>v. \<not> isnan v) (rev (take (Suc i) vs)) of
        Some v \<Rightarrow> v
      | None \<Rightarrow> (case find (\<lambda>v. \<not> isnan v) vs of Some v \<Rightarrow> v | None \<Rightarrow> NaN))"

subsection \<open>Example frames\<close>

definition on_date :: "int \<Rightarrow> nat \<Rightarrow> nat \<Rightarrow> timestamp" where
  "on_date y m d = \<lparr>year = y, month = m, day = d\<rparr>"

text \<open>The three closes of the end-to-end scenario, 2021-01-04 to 2021-01-06.\<close>

definition closes_100_110_121 :: series where
  "closes_100_110_121 =
     [(on_date 2021 1 4, Fin 100), (on_date 2021 1 5, Fin 110), (on_date 2021 1 6, Fin 121)]"

text \<open>The same three closes followed by three more trading days.\<close>

definition closes_2021 :: series where
  "closes_2021 =
     closes_100_110_121 @
     [(on_date 2021 1 7, Fin 115), (on_date 2021 1 8, Fin 118), (on_date 2021 1 11, Fin 121)]"

text \<open>A window with a leading, an interior and a trailing gap.\<close>

definition closes_with_gaps :: series where
  "closes_with_gaps =
     [(on_date 2021 1 4, NaN), (on_date 2021 1 5, Fin 100), (on_date 2021 1 6, NaN),
      (on_date 2021 1 7, Fin 120), (on_date 2021 1 8, Fin 130), (on_date 2021 1 11, NaN)]"

text \<open>A window whose first close is zero.\<close>

definition closes_from_zero :: series where
  "closes_from_zero =
     [(on_date 2021 1 4, Fin 0), (on_date 2021 1 5, Fin 1), (on_date 2021 1 6, Fin 2),
      (on_date 2021 1 7, Fin 3), (on_date 2021 1 8, Fin 4), (on_date 2021 1 11, Fin 5)]"

text \<open>
  Three years: 2019 with three rows, 2020 with six rows around the leap day, and 2021.
\<close>

definition closes_2019_to_2021 :: series where
  "closes_2019_to_2021 =
     [(on_date 2019 12 27, Fin 70), (on_date 2019 12 30, Fin 71), (on_date 2019 12 31, Fin 72),
      (on_date 2020 2 26, Fin 80), (on_date 2020 2 27, Fin 76), (on_date 2020 2 28, NaN),
      (on_date 2020 2 29, Fin 84), (on_date 2020 3 2, Fin 88), (on_date 2020 3 3, Fin 90)]
     @ closes_2021"

text \<open>
  Two dictionaries as \<^verbatim>\<open>create_summary_table\<close> receives them: 2021 and 2020 with rows,
  2018 a key with an empty series, 2019 not a key.
\<close>

definition example_normalized :: "(int \<times> series) list" where
  "example_normalized =
     [(2021, [(on_date 2000 1 4, Fin 0), (on_date 2000 1 5, Fin 10), (on_date 2000 1 6, Fin 21)]),
      (2020, [(on_date 2000 2 28, Fin 0), (on_date 2000 2 29, Fin (25 / 2))]),
      (2018, [])]"

definition example_original :: "(int \<times> series) list" where
  "example_original =
     [(2021, [(on_date 2021 1 4, Fin 100), (on_date 2021 1 5, Fin 110), (on_date 2021 1 6, Fin 121)]),
      (2020, [(on_date 2020 2 28, Fin 80), (on_date 2020 2 29, Fin 90)]),
      (2018, [])]"

text \<open>
  Results whose true dates of 2021 are one short of the series: a label count that
  does not match. The dates of 2020 match.
\<close>

definition mismatched_results :: annual_results where
  "mismatched_results =
     \<lparr>normalized = example_normalized, original = example_original,
      dates = [(2021, [on_date 2021 1 4, on_date 2021 1 5]),
               (2020, [on_date 2020 2 28, on_date 2020 2 29])]\<rparr>"

definition series_2021 :: series where
  "series_2021 = [(on_date 2000 1 4, Fin 0), (on_date 2000 1 5, Fin 10), (on_date 2000 1 6, Fin 21)]"

definition series_2020 :: series where
  "series_2020 = [(on_date 2000 2 28, Fin 0), (on_date 2000 2 29, Fin (25 / 2))]"

section \<open>Properties\<close>

subsection \<open>Filling\<close>

lemma length_ffill_from: "length (ffill_from c vs) = length vs"
  by (induction vs arbitrary: c) auto

lemma length_bfill_values: "length (bfill_values vs) = length vs"
  by (induction vs) (auto simp: Let_def)

lemma ffill_from_valid: "\<not> isnan c \<Longrightarrow> v \<in> set (ffill_from c vs) \<Longrightarrow> \<not> isnan v"
  by (induction vs arbitrary: c) (auto split: if_splits)

lemma ffill_from_last:
  "\<exists>v\<in>set vs. \<not> isnan v \<Longrightarrow> \<not> isnan (last (ffill_from c vs))"
proof (induction vs arbitrary: c)
  case Nil
  then show ?case by simp
next
  case (Cons a vs)
  show ?case
  proof (cases "isnan a")
    case True
    with Cons.prems have "\<exists>v\<in>set vs. \<not> isnan v" by auto
    then have "\<not> isnan (last (ffill_from c vs))" by (rule Cons.IH)
    moreover from \<open>\<exists>v\<in>set vs. \<not> isnan v\<close> have "ffill_from c vs \<noteq> []"
      by (cases vs) auto
    ultimately show ?thesis using True by simp
  next
    case False
    show ?thesis
    proof (cases "ffill_from a vs = []")
      case True
      with False show ?thesis by simp
    next
      case nonempty: False
      then have "last (ffill_from a vs) \<in> set (ffill_from a vs)" by simp
      with False have "\<not> isnan (last (ffill_from a vs))" by (rule ffill_from_valid)
      with False nonempty show ?thesis by simp
    qed
  qed
qed

lemma bfill_values_valid:
  "ws \<noteq> [] \<Longrightarrow> \<not> isnan (last ws) \<Longrightarrow> v \<in> set (bfill_values ws) \<Longrightarrow> \<not> isnan v"
proof (induction ws arbitrary: v)
  case Nil
  then show ?case by simp
next
  case (Cons a ws)
  show ?case
  proof (cases ws)
    case Nil
    with Cons.prems show ?thesis by simp
  next
    case (Cons b ws')
    with Cons.prems have l: "\<not> isnan (last ws)" and ne: "ws \<noteq> []" by auto
    have all: "\<And>u. u \<in> set (bfill_values ws) \<Longrightarrow> \<not> isnan u"
      using Cons.IH [OF ne l] .
    obtain w r where r: "bfill_values ws = w # r"
      using ne length_bfill_values [of ws] by (cases "bfill_values ws") auto
    then have "\<not> isnan w" using all by simp
    with Cons.prems(3) r all show ?thesis
      by (auto simp: Let_def split: if_splits)
  qed
qed

lemma filled_values_valid:
  assumes "\<exists>v\<in>set vs. \<not> isnan v" and "u \<in> set (bfill_values (ffill_from NaN vs))"
  shows "\<not> isnan u"
proof -
  from assms(1) have "vs \<noteq> []" by auto
  then have "ffill_from NaN vs \<noteq> []" using length_ffill_from [of NaN vs] by auto
  moreover have "\<not> isnan (last (ffill_from NaN vs))" using assms(1) by (rule ffill_from_last)
  ultimately show ?thesis using assms(2) by (rule bfill_values_valid)
qed

lemma filled_values_hd:
  "find (\<lambda>v. \<not> isnan v) vs = Some b \<Longrightarrow> \<exists>r. bfill_values (ffill_from NaN vs) = b # r"
proof (induction vs)
  case Nil
  then show ?case by simp
next
  case (Cons a vs)
  show ?case
  proof (cases "isnan a")
    case True
    with Cons.prems have "find (\<lambda>v. \<not> isnan v) vs = Some b" by simp
    then obtain r where "bfill_values (ffill_from NaN vs) = b # r" using Cons.IH by blast
    with True show ?thesis by (simp add: Let_def)
  next
    case False
    with Cons.prems have "a = b" by simp
    with False show ?thesis by (simp add: Let_def)
  qed
qed

lemma find_valid_iff: "(\<exists>b. find (\<lambda>v. \<not> isnan v) vs = Some b) \<longleftrightarrow> (\<exists>v\<in>set vs. \<not> isnan v)"
  by (induction vs) auto

lemma first_valid_index_None: "first_valid_index s = None \<longleftrightarrow> (\<forall>v\<in>set (values_of s). isnan v)"
  by (induction s rule: first_valid_index.induct) (auto simp: values_of_def)

lemma first_valid_index_mem: "first_valid_index s = Some k \<Longrightarrow> k \<in> set (index s)"
  by (induction s rule: first_valid_index.induct) (auto simp: index_def split: if_splits)

lemma loc_first_valid:
  "distinct (index s) \<Longrightarrow> first_valid_index s = Some k \<Longrightarrow>
     \<exists>b. baseline s = Some b \<and> loc s k = Inr b"
proof (induction s rule: first_valid_index.induct)
  case 1
  then show ?case by simp
next
  case (2 t v s)
  show ?case
  proof (cases "isnan v")
    case True
    with "2.prems" have d: "distinct (index s)" and f: "first_valid_index s = Some k"
      and nt: "t \<notin> set (index s)"
      by (auto simp: index_def)
    from "2.IH" [OF True d f] obtain b where b: "baseline s = Some b" "loc s k = Inr b" by blast
    have "k \<in> set (index s)" using f by (rule first_valid_index_mem)
    with nt have "t \<noteq> k" by auto
    with b True show ?thesis by (auto simp: baseline_def values_of_def loc_def)
  next
    case False
    with "2.prems" have k: "k = t" and nt: "t \<notin> set (index s)" by (auto simp: index_def)
    from nt have "filter (\<lambda>(t', v). t' = t) s = []"
      by (force simp: filter_empty_conv index_def)
    with False k show ?thesis by (simp add: baseline_def values_of_def loc_def)
  qed
qed

subsection \<open>The loop of \<^verbatim>\<open>process_annual_data\<close>\<close>

lemma index_zip: "length vs = length s \<Longrightarrow> index (zip (index s) vs) = index s"
  by (simp add: index_def)

lemma index_ffill: "index (ffill s) = index s"
  by (simp add: ffill_def index_zip length_ffill_from values_of_def)

lemma index_bfill: "index (bfill s) = index s"
  by (simp add: bfill_def index_zip length_bfill_values values_of_def)

lemma length_ffill: "length (ffill s) = length s"
  by (simp add: ffill_def length_ffill_from values_of_def index_def)

lemma length_bfill: "length (bfill s) = length s"
  by (simp add: bfill_def length_bfill_values values_of_def index_def)

lemma values_of_ffill: "values_of (ffill s) = ffill_from NaN (values_of s)"
  by (simp add: ffill_def length_ffill_from values_of_def index_def)

lemma values_of_bfill: "values_of (bfill s) = bfill_values (values_of s)"
  by (simp add: bfill_def length_bfill_values values_of_def index_def)

lemma values_of_filled:
  "values_of (bfill (ffill s)) = bfill_values (ffill_from NaN (values_of s))"
  by (simp add: values_of_bfill values_of_ffill)

lemma index_year_filled: "index (year_filled data y) = index (year_window data y)"
  by (simp add: year_filled_def index_bfill index_ffill)

lemma length_year_filled: "length (year_filled data y) = length (year_window data y)"
  by (simp add: year_filled_def length_bfill length_ffill)

lemma valid_synthetic: "valid_date d \<Longrightarrow> valid_date (synthetic_date d)"
  by (auto simp: valid_date_def synthetic_date_def days_in_month_def is_leap_def split: if_splits)

lemma pd_Timestamp_valid:
  "valid_date d \<Longrightarrow> pd_Timestamp 2000 (month d) (day d) = Inr (synthetic_date d)"
  using valid_synthetic [of d] by (simp add: pd_Timestamp_def synthetic_date_def Let_def)

lemma common_year_index_valid:
  "\<forall>d\<in>set ds. valid_date d \<Longrightarrow> common_year_index ds = Inr (map synthetic_date ds)"
  by (induction ds) (simp_all add: pd_Timestamp_valid)

lemma distinct_year_window: "distinct (index data) \<Longrightarrow> distinct (index (year_window data y))"
  by (simp add: index_def year_window_def distinct_map_filter)

lemma set_year_window: "set (index (year_window data y)) \<subseteq> set (index data)"
  by (auto simp: index_def year_window_def)

lemma values_of_norm_data: "values_of (norm_data b s) = map (norm_value b) (values_of s)"
  by (simp add: values_of_def norm_data_def case_prod_beta comp_def)

lemma process_year_ok:
  assumes d: "distinct (index data)" and v: "\<forall>t\<in>set (index data). valid_date t"
  shows "process_year data y acc = Inr (year_entry data y acc)"
proof (cases "qualifies data y")
  case False
  then have "\<not> length (year_window data y) > 5 \<or> first_valid_index (year_window data y) = None"
    by (auto simp: qualifies_def first_valid_index_None)
  with False show ?thesis
    by (auto simp: process_year_def year_entry_def Let_def)
next
  case True
  let ?w = "year_window data y"
  from True have len: "length ?w > 5" and ex: "\<exists>v\<in>set (values_of ?w). \<not> isnan v"
    by (simp_all add: qualifies_def)
  from ex obtain k where k: "first_valid_index ?w = Some k"
    using first_valid_index_None [of ?w] by (cases "first_valid_index ?w") auto
  from loc_first_valid [OF distinct_year_window [OF d] k]
  obtain b where b: "baseline ?w = Some b" "loc ?w k = Inr b" by blast
  have cyi: "common_year_index (index ?w) = Inr (map synthetic_date (index ?w))"
    using v set_year_window [of data y] by (intro common_year_index_valid) auto
  have ser: "Series (values_of (norm_data b (year_filled data y))) (map synthetic_date (index ?w))
      = Inr (year_normalized data y)"
    using b(1) length_year_filled [of data y]
    by (simp add: Series_def year_normalized_def values_of_norm_data)
      (simp add: values_of_def index_def)
  show ?thesis
    using True len k b cyi ser
    by (simp add: process_year_def year_entry_def Let_def year_filled_def [symmetric]
        index_year_filled)
qed

lemma process_years_ok:
  assumes "distinct (index data)" and "\<forall>t\<in>set (index data). valid_date t"
  shows "process_years data ys acc = Inr (year_entries data ys acc)"
  by (induction ys arbitrary: acc) (simp_all add: process_year_ok [OF assms])

lemma year_entries_normalized:
  "map_of (normalized (year_entries data ys acc)) y =
     (if y \<in> set ys \<and> qualifies data y then Some (year_normalized data y)
      else map_of (normalized acc) y)"
  by (induction ys arbitrary: acc) (auto simp: year_entry_def update_conv')

lemma year_entries_original:
  "map_of (original (year_entries data ys acc)) y =
     (if y \<in> set ys \<and> qualifies data y then Some (year_filled data y)
      else map_of (original acc) y)"
  by (induction ys arbitrary: acc) (auto simp: year_entry_def update_conv')

lemma year_entries_dates:
  "map_of (dates (year_entries data ys acc)) y =
     (if y \<in> set ys \<and> qualifies data y then Some (index (year_window data y))
      else map_of (dates acc) y)"
  by (induction ys arbitrary: acc) (auto simp: year_entry_def update_conv')

subsection \<open>The filled values, position by position\<close>

lemma find_app:
  "find P (xs @ ys) = (case find P xs of None \<Rightarrow> find P ys | Some x \<Rightarrow> Some x)"
  by (induction xs) simp_all

lemma length_values_of: "length (values_of s) = length s"
  by (simp add: values_of_def)

lemma ffill_from_nth:
  "i < length vs \<Longrightarrow>
     ffill_from c vs ! i =
       (case find (\<lambda>v. \<not> isnan v) (rev (take (Suc i) vs)) of Some v \<Rightarrow> v | None \<Rightarrow> c)"
proof (induction vs arbitrary: c i)
  case Nil
  then show ?case by simp
next
  case (Cons a vs)
  show ?case
  proof (cases i)
    case 0
    then show ?thesis by simp
  next
    case (Suc k)
    with Cons.prems have k: "k < length vs" by simp
    show ?thesis
      using Suc Cons.IH [OF k] by (simp add: find_app split: option.splits)
  qed
qed

lemma bfill_values_nth:
  "i < length ws \<Longrightarrow>
     bfill_values ws ! i =
       (case find (\<lambda>v. \<not> isnan v) (drop i ws) of Some v \<Rightarrow> v | None \<Rightarrow> NaN)"
proof (induction ws arbitrary: i)
  case Nil
  then show ?case by simp
next
  case (Cons a ws)
  show ?case
  proof (cases i)
    case 0
    show ?thesis
    proof (cases ws)
      case Nil
      with 0 show ?thesis by (cases a) (simp_all add: Let_def)
    next
      case (Cons b ws')
      then have "0 < length ws" by simp
      from Cons.IH [OF this] have hd: "bfill_values ws ! 0 =
        (case find (\<lambda>v. \<not> isnan v) ws of Some v \<Rightarrow> v | None \<Rightarrow> NaN)" by simp
      obtain w r where r: "bfill_values ws = w # r"
        using Cons length_bfill_values [of ws] by (cases "bfill_values ws") auto
      with hd 0 show ?thesis by (simp add: Let_def)
    qed
  next
    case (Suc k)
    with Cons.prems have "k < length ws" by simp
    from Cons.IH [OF this] Suc show ?thesis by (simp add: Let_def)
  qed
qed

lemma find_ffill_from: "find (\<lambda>v. \<not> isnan v) (ffill_from NaN vs) = find (\<lambda>v. \<not> isnan v) vs"
  by (induction vs) simp_all

lemma find_drop_ffill_from:
  "i < length vs \<Longrightarrow> \<forall>v\<in>set (take (Suc i) vs). isnan v \<Longrightarrow>
     find (\<lambda>v. \<not> isnan v) (drop i (ffill_from NaN vs)) = find (\<lambda>v. \<not> isnan v) vs"
proof (induction vs arbitrary: i)
  case Nil
  then show ?case by simp
next
  case (Cons a vs)
  from Cons.prems(2) have a: "isnan a" by simp
  show ?case
  proof (cases i)
    case 0
    with a show ?thesis by (simp add: find_ffill_from)
  next
    case (Suc k)
    with Cons.prems have "k < length vs" and "\<forall>v\<in>set (take (Suc k) vs). isnan v" by simp_all
    from Cons.IH [OF this] Suc a show ?thesis by simp
  qed
qed

lemma filled_values_nth:
  assumes i: "i < length vs"
  shows "bfill_values (ffill_from NaN vs) ! i = fill_spec vs i"
proof -
  let ?ws = "ffill_from NaN vs"
  have len: "i < length ?ws" using i by (simp add: length_ffill_from)
  have b: "bfill_values ?ws ! i =
      (case find (\<lambda>v. \<not> isnan v) (drop i ?ws) of Some v \<Rightarrow> v | None \<Rightarrow> NaN)"
    using len by (rule bfill_values_nth)
  have d: "drop i ?ws = ?ws ! i # drop (Suc i) ?ws"
    using len by (simp add: Cons_nth_drop_Suc)
  show ?thesis
  proof (cases "find (\<lambda>v. \<not> isnan v) (rev (take (Suc i) vs))")
    case None
    then have "\<forall>v\<in>set (take (Suc i) vs). isnan v" by (simp add: find_None_iff)
    from find_drop_ffill_from [OF i this] b None show ?thesis by (simp add: fill_spec_def)
  next
    case (Some v)
    then have v: "\<not> isnan v" by (auto dest: find_Some_iff [THEN iffD1])
    from Some have "?ws ! i = v" using ffill_from_nth [OF i, of NaN] by simp
    with b d v Some show ?thesis by (simp add: fill_spec_def)
  qed
qed

lemma process_annual_data_ok:
  assumes "well_formed data" and "years \<noteq> []"
  shows "process_annual_data (Some data) years = Inr (Some (year_entries data years empty_results))"
  using assms by (simp add: process_annual_data_def well_formed_def process_years_ok)

lemma empty_results_sel [simp]:
  "normalized empty_results = []" "original empty_results = []" "dates empty_results = []"
  by (simp_all add: empty_results_def)

subsection \<open>The entries of a surviving year\<close>

lemma keys_map_of: "y \<in> keys d \<longleftrightarrow> map_of d y \<noteq> None"
  by (simp add: keys_def map_of_eq_None_iff)

lemma baseline_qualifies: "qualifies data y \<Longrightarrow> \<exists>b. baseline (year_window data y) = Some b \<and> \<not> isnan b"
  by (auto simp: qualifies_def baseline_def find_valid_iff [symmetric] dest: find_Some_iff [THEN iffD1])

lemma length_year_normalized: "length (year_normalized data y) = length (year_window data y)"
  by (simp add: year_normalized_def index_def values_of_def length_year_filled)

lemma index_year_normalized:
  "index (year_normalized data y) = map synthetic_date (index (year_window data y))"
  by (simp add: year_normalized_def values_of_def index_def length_year_filled)

lemma snd_nth_values_of: "i < length s \<Longrightarrow> snd (s ! i) = values_of s ! i"
  by (simp add: values_of_def)

lemma fst_nth_index: "i < length s \<Longrightarrow> fst (s ! i) = index s ! i"
  by (simp add: index_def)

lemma year_filled_first:
  assumes "baseline (year_window data y) = Some b"
  shows "snd (year_filled data y ! 0) = b"
proof -
  from assms obtain r where "bfill_values (ffill_from NaN (values_of (year_window data y))) = b # r"
    unfolding baseline_def by (blast dest: filled_values_hd)
  then have v: "values_of (year_filled data y) = b # r"
    by (simp add: year_filled_def values_of_filled)
  then have "0 < length (year_filled data y)" by (auto simp: values_of_def)
  then have "snd (year_filled data y ! 0) = values_of (year_filled data y) ! 0"
    by (rule snd_nth_values_of)
  with v show ?thesis by simp
qed

lemma year_normalized_nth:
  "i < length (year_window data y) \<Longrightarrow> baseline (year_window data y) = Some b \<Longrightarrow>
     snd (year_normalized data y ! i) = norm_value b (snd (year_filled data y ! i))"
  by (simp add: year_normalized_def index_def values_of_def length_year_filled)

lemma norm_value_self: "\<not> isnan b \<Longrightarrow> norm_value b b = Fin 0 \<longleftrightarrow> \<not> is_zero b \<and> \<not> is_inf b"
  by (cases b) (auto simp: norm_value_def fdiv_def fsub_def fmul_def signed_inf_def signed_zero_def)

lemma year_entries_keys:
  "keys (normalized (year_entries data ys acc)) = keys (normalized acc) \<union> {y \<in> set ys. qualifies data y}"
  "keys (original (year_entries data ys acc)) = keys (original acc) \<union> {y \<in> set ys. qualifies data y}"
  "keys (dates (year_entries data ys acc)) = keys (dates acc) \<union> {y \<in> set ys. qualifies data y}"
  by (auto simp: keys_map_of year_entries_normalized year_entries_original year_entries_dates
      split: if_splits)

lemma year_window_year: "t \<in> set (index (year_window data y)) \<Longrightarrow> year t = y"
  by (auto simp: year_window_def index_def)

lemma year_normalized_fst:
  "i < length (year_window data y) \<Longrightarrow>
     fst (year_normalized data y ! i) = synthetic_date (index (year_window data y) ! i)"
  by (simp add: year_normalized_def index_def values_of_def length_year_filled)

subsection \<open>Synthetic dates\<close>

lemma ts_less_synthetic:
  "year a = year b \<Longrightarrow> ts_less (synthetic_date a) (synthetic_date b) \<longleftrightarrow> ts_less a b"
  by (simp add: ts_less_def synthetic_date_def)

lemma synthetic_date_inj:
  "year a = year b \<Longrightarrow> synthetic_date a = synthetic_date b \<Longrightarrow> a = b"
  by (simp add: synthetic_date_def)

lemma sorted_wrt_synthetic:
  "\<forall>t\<in>set ds. year t = y \<Longrightarrow> sorted_wrt ts_less ds \<Longrightarrow>
     sorted_wrt ts_less (map synthetic_date ds)"
  by (induction ds) (auto simp: ts_less_synthetic)

lemma distinct_synthetic:
  "\<forall>t\<in>set ds. year t = y \<Longrightarrow> distinct ds \<Longrightarrow> distinct (map synthetic_date ds)"
  by (auto simp: distinct_map inj_on_def intro: synthetic_date_inj)

lemma sorted_wrt_year_window:
  "sorted_wrt ts_less (index data) \<Longrightarrow> sorted_wrt ts_less (index (year_window data y))"
  by (simp add: index_def year_window_def sorted_wrt_map sorted_wrt_filter)

subsection \<open>The summary table\<close>

lemma update_present:
  "y \<in> set ks \<Longrightarrow> AList.update y (f y) (map (\<lambda>k. (k, f k)) ks) = map (\<lambda>k. (k, f k)) ks"
  by (induction ks) auto

lemma update_absent:
  "y \<notin> set ks \<Longrightarrow> AList.update y v (map (\<lambda>k. (k, f k)) ks) = map (\<lambda>k. (k, f k)) ks @ [(y, v)]"
  by (induction ks) auto

lemma update_insert_key:
  "AList.update y (f y) (map (\<lambda>k. (k, f k)) ks) = map (\<lambda>k. (k, f k)) (insert_key ks y)"
  by (simp add: insert_key_def update_present update_absent)

lemma has_rows_Some: "has_rows d y \<Longrightarrow> \<exists>s. map_of d y = Some s \<and> s \<noteq> []"
  by (auto simp: has_rows_def split: option.splits)

lemma iloc_last_rows: "has_rows d y \<Longrightarrow> iloc_last (the (map_of d y)) = Inr (last_value d y)"
  by (auto simp: iloc_last_def last_value_def dest: has_rows_Some)

lemma year_end_loop_ok:
  assumes "\<forall>y\<in>set ys. has_rows nd y \<longrightarrow> has_rows od y"
  shows "year_end_loop nd od ys
           (map (\<lambda>k. (k, last_value nd k)) ks, map (\<lambda>k. (k, last_value od k)) ks)
         = Inr (map (\<lambda>k. (k, last_value nd k)) (foldl insert_key ks (filter (has_rows nd) ys)),
                map (\<lambda>k. (k, last_value od k)) (foldl insert_key ks (filter (has_rows nd) ys)))"
  using assms
proof (induction ys arbitrary: ks)
  case Nil
  then show ?case by simp
next
  case (Cons y ys)
  then have rest: "\<forall>y\<in>set ys. has_rows nd y \<longrightarrow> has_rows od y" by simp
  show ?case
  proof (cases "has_rows nd y")
    case False
    then have "map_of nd y = None \<or> map_of nd y = Some []"
      by (auto simp: has_rows_def split: option.splits)
    with False Cons.IH [OF rest, of ks] show ?thesis by auto
  next
    case True
    with Cons.prems have od: "has_rows od y" by simp
    from True obtain s where s: "map_of nd y = Some s" "s \<noteq> []" by (blast dest: has_rows_Some)
    from od obtain s' where s': "map_of od y = Some s'" "s' \<noteq> []" by (blast dest: has_rows_Some)
    from iloc_last_rows [OF True] s have l1: "iloc_last s = Inr (last_value nd y)" by simp
    from iloc_last_rows [OF od] s' have l2: "iloc_last s' = Inr (last_value od y)" by simp
    from True s s' l1 l2 Cons.IH [OF rest, of "insert_key ks y"] show ?thesis
      by (simp add: update_insert_key)
  qed
qed

lemma foldl_insert_key_distinct:
  "distinct (ks @ ys) \<Longrightarrow> foldl insert_key ks ys = ks @ ys"
  by (induction ys arbitrary: ks) (auto simp: insert_key_def)

lemma first_occurrences_distinct: "distinct ys \<Longrightarrow> first_occurrences ys = ys"
  by (simp add: first_occurrences_def foldl_insert_key_distinct)

lemma set_foldl_insert_key: "set (foldl insert_key ks ys) = set ks \<union> set ys"
  by (induction ys arbitrary: ks) (auto simp: insert_key_def)

lemma set_first_occurrences: "set (first_occurrences ys) = set ys"
  by (simp add: first_occurrences_def set_foldl_insert_key)

lemma first_occurrences_Nil: "first_occurrences ys = [] \<longleftrightarrow> ys = []"
  using set_first_occurrences [of ys] by (metis set_empty)

lemma zip_rows:
  "zip (map fst (map (\<lambda>k. (k, f k)) ks))
       (zip (map (g \<circ> snd) (map (\<lambda>k. (k, h k)) ks)) (map (g \<circ> snd) (map (\<lambda>k. (k, f k)) ks)))
     = map (\<lambda>y. (y, g (h y), g (f y))) ks"
  by (induction ks) simp_all

lemma create_summary_table_ok:
  assumes "\<forall>y\<in>set years. has_rows nd y \<longrightarrow> has_rows od y"
  shows "create_summary_table nd od years =
           Inr (if filter (has_rows nd) years = [] then None
                else Some (map (\<lambda>y. (y, fmt_2f (last_value od y), fmt_2f (last_value nd y)))
                             (first_occurrences (filter (has_rows nd) years))))"
proof -
  let ?ks = "first_occurrences (filter (has_rows nd) years)"
  have "year_end_loop nd od years ([], []) =
      Inr (map (\<lambda>k. (k, last_value nd k)) ?ks, map (\<lambda>k. (k, last_value od k)) ?ks)"
    using year_end_loop_ok [OF assms, of "[]"] by (simp add: first_occurrences_def)
  then show ?thesis
    by (simp add: create_summary_table_def first_occurrences_Nil zip_rows del: map_map)
qed

subsection \<open>Hover text\<close>

lemma hover_loop_length:
  "hover_loop j ds os ns = Inr hs \<Longrightarrow> length hs = min (length ds - j) (length ns)"
proof (induction ns arbitrary: j hs)
  case Nil
  then show ?case by simp
next
  case (Cons a ns)
  obtain t p where a: "a = (t, p)" by (cases a)
  show ?case
  proof (cases "j < length ds")
    case True
    with Cons.prems a obtain hs' where hs': "hover_loop (Suc j) ds os ns = Inr hs'"
      and hs: "hs = hover_label (ds ! j) (snd (os ! j)) p # hs'"
      by (auto split: if_splits sum.splits)
    from Cons.IH [OF hs'] hs True show ?thesis by auto
  next
    case False
    with Cons.prems a have "hover_loop (Suc j) ds os ns = Inr hs" by simp
    from Cons.IH [OF this] False show ?thesis by auto
  qed
qed

lemma hover_loop_total:
  "min (length ds) (j + length ns) \<le> length os \<Longrightarrow> \<exists>hs. hover_loop j ds os ns = Inr hs"
proof (induction ns arbitrary: j)
  case Nil
  then show ?case by simp
next
  case (Cons a ns)
  obtain t p where a: "a = (t, p)" by (cases a)
  from Cons.prems have "min (length ds) (Suc j + length ns) \<le> length os" by simp
  from Cons.IH [OF this] obtain hs where hs: "hover_loop (Suc j) ds os ns = Inr hs" by blast
  show ?case
  proof (cases "j < length ds")
    case True
    with Cons.prems have "j < length os" by auto
    with True hs a show ?thesis by simp
  next
    case False
    with hs a show ?thesis by simp
  qed
qed

lemma hover_loop_fails:
  "hover_loop j ds os ns = Inl e \<Longrightarrow> e = IndexError \<and> length os < min (length ds) (j + length ns)"
proof (induction ns arbitrary: j)
  case Nil
  then show ?case by simp
next
  case (Cons a ns)
  obtain t p where a: "a = (t, p)" by (cases a)
  show ?case
  proof (cases "j < length ds")
    case True
    show ?thesis
    proof (cases "j < length os")
      case os: True
      with True Cons.prems a have "hover_loop (Suc j) ds os ns = Inl e"
        by (auto split: sum.splits)
      from Cons.IH [OF this] show ?thesis by simp
    next
      case False
      with True Cons.prems a show ?thesis by auto
    qed
  next
    case False
    with Cons.prems a have "hover_loop (Suc j) ds os ns = Inl e" by simp
    from Cons.IH [OF this] show ?thesis by simp
  qed
qed

lemma length_index: "length (index s) = length s"
  by (simp add: index_def)

subsection \<open>The chart and the page\<close>

lemma year_trace_flag:
  "year_trace r b i y ns =
     (case year_trace r True i y ns of
        Inl e \<Rightarrow> Inl e
      | Inr tr \<Rightarrow>
          Inr (tr\<lparr>trace_y := (if b then values_of ns else values_of (the (map_of (original r) y)))\<rparr>))"
  by (cases b) (auto simp: year_trace_def Let_def split: option.splits sum.splits)

lemma chart_loop_flag:
  "chart_loop r True i ys = Inr ts \<Longrightarrow>
     chart_loop r b i ys =
       Inr (map2 (\<lambda>tr y. tr\<lparr>trace_y :=
                     values_of (the (map_of (if b then normalized r else original r) y))\<rparr>)
              ts (filter (\<lambda>y. map_of (normalized r) y \<noteq> None) ys)) \<and>
     length ts = length (filter (\<lambda>y. map_of (normalized r) y \<noteq> None) ys)"
proof (induction ys arbitrary: i ts)
  case Nil
  then show ?case by simp
next
  case (Cons y ys)
  show ?case
  proof (cases "map_of (normalized r) y")
    case None
    with Cons.prems have "chart_loop r True (Suc i) ys = Inr ts" by simp
    from Cons.IH [OF this] None show ?thesis by simp
  next
    case (Some ns)
    with Cons.prems obtain tr ts' where tr: "year_trace r True i y ns = Inr tr"
      and ts': "chart_loop r True (Suc i) ys = Inr ts'" and ts: "ts = tr # ts'"
      by (auto split: sum.splits)
    from tr have "year_trace r b i y ns =
        Inr (tr\<lparr>trace_y := (if b then values_of ns else values_of (the (map_of (original r) y)))\<rparr>)"
      by (subst year_trace_flag) simp
    with Some ts Cons.IH [OF ts'] show ?thesis by simp
  qed
qed

lemma year_trace_pipeline:
  assumes "y \<in> set years" and "qualifies data y"
  shows "\<exists>tr. year_trace (year_entries data years empty_results) True i y
                 (year_normalized data y) = Inr tr"
proof -
  let ?r = "year_entries data years empty_results"
  have os: "map_of (original ?r) y = Some (year_filled data y)"
    using assms by (simp add: year_entries_original)
  have ds: "map_of (dates ?r) y = Some (index (year_window data y))"
    using assms by (simp add: year_entries_dates)
  have "min (length (index (year_window data y))) (0 + length (year_normalized data y))
      \<le> length (year_filled data y)"
    by (simp add: length_index length_year_filled)
  from hover_loop_total [OF this]
  obtain hs where "create_hover_text (index (year_window data y)) (year_filled data y)
      (year_normalized data y) = Inr hs"
    unfolding create_hover_text_def by blast
  with os ds show ?thesis by (simp add: year_trace_def Let_def)
qed

lemma chart_loop_pipeline:
  "\<exists>ts. chart_loop (year_entries data years empty_results) True i ys = Inr ts"
proof (induction ys arbitrary: i)
  case Nil
  then show ?case by simp
next
  case (Cons y ys)
  let ?r = "year_entries data years empty_results"
  from Cons.IH [of "Suc i"] obtain ts where ts: "chart_loop ?r True (Suc i) ys = Inr ts" by blast
  show ?case
  proof (cases "y \<in> set years \<and> qualifies data y")
    case True
    then have ns: "map_of (normalized ?r) y = Some (year_normalized data y)"
      by (simp add: year_entries_normalized)
    from True obtain tr where "year_trace ?r True i y (year_normalized data y) = Inr tr"
      using year_trace_pipeline [of y years data i] by blast
    with ns ts show ?thesis by simp
  next
    case False
    then have "map_of (normalized ?r) y = None"
      by (auto simp: year_entries_normalized)
    with ts show ?thesis by simp
  qed
qed

lemma has_rows_pipeline:
  "has_rows (normalized (year_entries data years empty_results)) y \<longleftrightarrow>
     y \<in> set years \<and> qualifies data y"
  "has_rows (original (year_entries data years empty_results)) y \<longleftrightarrow>
     y \<in> set years \<and> qualifies data y"
proof -
  have "qualifies data y \<Longrightarrow> year_normalized data y \<noteq> []"
    using length_year_normalized [of data y] by (auto simp: qualifies_def)
  moreover have "qualifies data y \<Longrightarrow> year_filled data y \<noteq> []"
    using length_year_filled [of data y] by (auto simp: qualifies_def)
  ultimately show
    "has_rows (normalized (year_entries data years empty_results)) y \<longleftrightarrow>
       y \<in> set years \<and> qualifies data y"
    "has_rows (original (year_entries data years empty_results)) y \<longleftrightarrow>
       y \<in> set years \<and> qualifies data y"
    by (auto simp: has_rows_def year_entries_normalized year_entries_original)
qed

lemma summary_pipeline:
  "create_summary_table (normalized (year_entries data years empty_results))
      (original (year_entries data years empty_results)) years
    = Inr (if filter (qualifies data) years = [] then None
           else Some (map (\<lambda>y. (y, fmt_2f (last_value (original (year_entries data years empty_results)) y),
                                   fmt_2f (last_value (normalized (year_entries data years empty_results)) y)))
                        (first_occurrences (filter (qualifies data) years))))"
proof -
  let ?r = "year_entries data years empty_results"
  have f: "filter (has_rows (normalized ?r)) years = filter (qualifies data) years"
    by (rule filter_cong) (simp_all add: has_rows_pipeline)
  have "\<forall>y\<in>set years. has_rows (normalized ?r) y \<longrightarrow> has_rows (original ?r) y"
    by (simp add: has_rows_pipeline)
  from create_summary_table_ok [OF this] f show ?thesis by simp
qed

lemma plotted_pipeline:
  "filter (\<lambda>y. map_of (normalized (year_entries data years empty_results)) y \<noteq> None) years
     = filter (qualifies data) years"
  by (rule filter_cong) (simp_all add: year_entries_normalized)

section \<open>The claims\<close>




text \<open>
  C2. For every year that appears in the result, the three dictionaries hold the year,
  and its filled original values, its normalized values and its true dates have the
  same length and go together position by position: the original series is indexed by
  the true dates, and the normalized series by the synthetic dates derived from them.
\<close>

theorem views_equal_length:
  assumes "well_formed data" and "years \<noteq> []"
  shows "\<exists>r. process_annual_data (Some data) years = Inr (Some r) \<and>
           keys (original r) = keys (normalized r) \<and> keys (dates r) = keys (normalized r) \<and>
           (\<forall>y\<in>keys (normalized r).
              \<exists>ns os ds. map_of (normalized r) y = Some ns \<and> map_of (original r) y = Some os \<and>
                map_of (dates r) y = Some ds \<and>
                length os = length ns \<and> length ds = length ns \<and>
                length (index ns) = length ds \<and>
                (\<forall>i<length ns. fst (os ! i) = ds ! i \<and>
                   month (fst (ns ! i)) = month (ds ! i) \<and> day (fst (ns ! i)) = day (ds ! i)))"
proof -
  let ?r = "year_entries data years empty_results"
  have run: "process_annual_data (Some data) years = Inr (Some ?r)"
    using assms by (rule process_annual_data_ok)
  have k1: "keys (original ?r) = keys (normalized ?r)"
    and k2: "keys (dates ?r) = keys (normalized ?r)"
    by (simp_all add: year_entries_keys) (simp_all add: keys_def)
  have each: "\<exists>ns os ds. map_of (normalized ?r) y = Some ns \<and> map_of (original ?r) y = Some os \<and>
                map_of (dates ?r) y = Some ds \<and>
                length os = length ns \<and> length ds = length ns \<and>
                length (index ns) = length ds \<and>
                (\<forall>i<length ns. fst (os ! i) = ds ! i \<and>
                   month (fst (ns ! i)) = month (ds ! i) \<and> day (fst (ns ! i)) = day (ds ! i))"
    if "y \<in> keys (normalized ?r)" for y
  proof -
    from that have q: "y \<in> set years" "qualifies data y"
      by (simp_all add: year_entries_keys) (simp_all add: keys_def)
    let ?w = "year_window data y"
    have ns: "map_of (normalized ?r) y = Some (year_normalized data y)"
      using q by (simp add: year_entries_normalized)
    have os: "map_of (original ?r) y = Some (year_filled data y)"
      using q by (simp add: year_entries_original)
    have ds: "map_of (dates ?r) y = Some (index ?w)"
      using q by (simp add: year_entries_dates)
    have l1: "length (year_filled data y) = length (year_normalized data y)"
      by (simp add: length_year_filled length_year_normalized)
    have l2: "length (index ?w) = length (year_normalized data y)"
      by (simp add: index_def length_year_normalized)
    have l3: "length (index (year_normalized data y)) = length (index ?w)"
      by (simp add: index_year_normalized)
    have pos: "\<forall>i<length (year_normalized data y).
        fst (year_filled data y ! i) = index ?w ! i \<and>
        month (fst (year_normalized data y ! i)) = month (index ?w ! i) \<and>
        day (fst (year_normalized data y ! i)) = day (index ?w ! i)"
    proof (intro allI impI)
      fix i assume "i < length (year_normalized data y)"
      then have i: "i < length ?w" by (simp add: length_year_normalized)
      have "fst (year_filled data y ! i) = index (year_filled data y) ! i"
        using i by (simp add: fst_nth_index length_year_filled)
      then have a: "fst (year_filled data y ! i) = index ?w ! i"
        by (simp add: index_year_filled)
      have b: "fst (year_normalized data y ! i) = synthetic_date (index ?w ! i)"
        using i by (rule year_normalized_fst)
      from a b show "fst (year_filled data y ! i) = index ?w ! i \<and>
        month (fst (year_normalized data y ! i)) = month (index ?w ! i) \<and>
        day (fst (year_normalized data y ! i)) = day (index ?w ! i)"
        by (simp add: synthetic_date_def)
    qed
    from ns os ds l1 l2 l3 pos show ?thesis by blast
  qed
  from run k1 k2 each show ?thesis by blast
qed


theorem views_equal_length_witness:
  "well_formed closes_2019_to_2021 \<and> [2021, 2020, 2019] \<noteq> ([] :: int list) \<and>
   (case process_annual_data (Some closes_2019_to_2021) [2021, 2020, 2019] of
      Inr (Some r) \<Rightarrow> map fst (normalized r) = [2021, 2020] \<and>
        map (length \<circ> snd) (normalized r) = [6, 6] \<and>
        map (length \<circ> snd) (original r) = [6, 6] \<and>
        map (length \<circ> snd) (dates r) = [6, 6]
    | _ \<Rightarrow> False) \<and>
   (\<exists>r. process_annual_data (Some closes_2019_to_2021) [2021, 2020, 2019] = Inr (Some r) \<and>
           keys (original r) = keys (normalized r) \<and> keys (dates r) = keys (normalized r) \<and>
           (\<forall>y\<in>keys (normalized r).
              \<exists>ns os ds. map_of (normalized r) y = Some ns \<and> map_of (original r) y = Some os \<and>
                map_of (dates r) y = Some ds \<and>
                length os = length ns \<and> length ds = length ns \<and>
                length (index ns) = length ds \<and>
                (\<forall>i<length ns. fst (os ! i) = ds ! i \<and>
                   month (fst (ns ! i)) = month (ds ! i) \<and> day (fst (ns ! i)) = day (ds ! i))))"
proof -
  have wf: "well_formed closes_2019_to_2021" by code_simp
  have ne: "[2021, 2020, 2019] \<noteq> ([] :: int list)" by simp
  have ev: "(case process_annual_data (Some closes_2019_to_2021) [2021, 2020, 2019] of
      Inr (Some r) \<Rightarrow> map fst (normalized r) = [2021, 2020] \<and>
        map (length \<circ> snd) (normalized r) = [6, 6] \<and>
        map (length \<circ> snd) (original r) = [6, 6] \<and>
        map (length \<circ> snd) (dates r) = [6, 6]
    | _ \<Rightarrow> False)"
    by code_simp
  show ?thesis
    by (intro conjI wf ne ev views_equal_length [OF wf ne])
qed

text \<open>
  C3. For a well-formed frame and a selection of years, nothing is raised:
  \<^verbatim>\<open>process_annual_data\<close>, \<^verbatim>\<open>create_summary_table\<close> and the page all return. A requested
  year is a key of the normalized, original and dates dictionaries and has a row in the
  summary if and only if its window has more than 5 rows and a close that is not
  missing; any other year is absent from all four, and no year that was not requested
  appears.
\<close>

theorem year_inclusion:
  assumes "well_formed data" and "years \<noteq> []"
  shows "\<exists>r tbl page. process_annual_data (Some data) years = Inr (Some r) \<and>
           create_summary_table (normalized r) (original r) years = Inr tbl \<and>
           process_and_display_data (Some data) ticker years show_percent = Inr page \<and>
           (\<forall>y\<in>set years.
              (y \<in> keys (normalized r) \<longleftrightarrow> qualifies data y) \<and>
              (y \<in> keys (original r) \<longleftrightarrow> qualifies data y) \<and>
              (y \<in> keys (dates r) \<longleftrightarrow> qualifies data y) \<and>
              (y \<in> summary_years tbl \<longleftrightarrow> qualifies data y)) \<and>
           keys (normalized r) \<subseteq> set years"
proof -
  let ?r = "year_entries data years empty_results"
  let ?tbl = "if filter (qualifies data) years = [] then None
     else Some (map (\<lambda>y. (y, fmt_2f (last_value (original ?r) y), fmt_2f (last_value (normalized ?r) y)))
                  (first_occurrences (filter (qualifies data) years)))"
  have run: "process_annual_data (Some data) years = Inr (Some ?r)"
    using assms by (rule process_annual_data_ok)
  have tbl: "create_summary_table (normalized ?r) (original ?r) years = Inr ?tbl"
    by (rule summary_pipeline)
  obtain ts where ts: "chart_loop ?r show_percent 0 years = Inr ts"
    using chart_loop_pipeline [of data years 0 years] chart_loop_flag [of ?r 0 years _ show_percent]
    by blast
  then have page: "\<exists>page. process_and_display_data (Some data) ticker years show_percent = Inr page"
    using assms(2) run tbl
    by (simp add: process_and_display_data_def create_performance_chart_def)
  have sy: "summary_years ?tbl = {y \<in> set years. qualifies data y}"
    by (auto simp: summary_years_def set_first_occurrences image_image filter_empty_conv)
  have ks: "keys (normalized ?r) = {y \<in> set years. qualifies data y}"
    "keys (original ?r) = {y \<in> set years. qualifies data y}"
    "keys (dates ?r) = {y \<in> set years. qualifies data y}"
    by (simp_all add: year_entries_keys) (simp_all add: keys_def)
  have each: "\<forall>y\<in>set years.
      (y \<in> keys (normalized ?r) \<longleftrightarrow> qualifies data y) \<and>
      (y \<in> keys (original ?r) \<longleftrightarrow> qualifies data y) \<and>
      (y \<in> keys (dates ?r) \<longleftrightarrow> qualifies data y) \<and>
      (y \<in> summary_years ?tbl \<longleftrightarrow> qualifies data y)"
    by (simp add: ks sy)
  have sub: "keys (normalized ?r) \<subseteq> set years" by (auto simp: ks)
  from run tbl page each sub show ?thesis by blast
qed

theorem year_inclusion_witness:
  "well_formed closes_2019_to_2021 \<and> [2019, 2020] \<noteq> ([] :: int list) \<and>
   length (year_window closes_2019_to_2021 2019) = 3 \<and>
   length (year_window closes_2019_to_2021 2020) = 6 \<and>
   \<not> qualifies closes_2019_to_2021 2019 \<and> qualifies closes_2019_to_2021 2020 \<and>
   (case process_annual_data (Some closes_2019_to_2021) [2019, 2020] of
      Inr (Some r) \<Rightarrow>
        map fst (normalized r) = [2020] \<and> map fst (original r) = [2020] \<and>
        map fst (dates r) = [2020] \<and>
        create_summary_table (normalized r) (original r) [2019, 2020]
          = Inr (Some [(2020, ''90.00'', ''12.50'')])
    | _ \<Rightarrow> False) \<and>
   (\<exists>r tbl page. process_annual_data (Some closes_2019_to_2021) [2019, 2020] = Inr (Some r) \<and>
           create_summary_table (normalized r) (original r) [2019, 2020] = Inr tbl \<and>
           process_and_display_data (Some closes_2019_to_2021) ''aapl'' [2019, 2020] True
             = Inr page \<and>
           (\<forall>y\<in>set [2019, 2020].
              (y \<in> keys (normalized r) \<longleftrightarrow> qualifies closes_2019_to_2021 y) \<and>
              (y \<in> keys (original r) \<longleftrightarrow> qualifies closes_2019_to_2021 y) \<and>
              (y \<in> keys (dates r) \<longleftrightarrow> qualifies closes_2019_to_2021 y) \<and>
              (y \<in> summary_years tbl \<longleftrightarrow> qualifies closes_2019_to_2021 y)) \<and>
           keys (normalized r) \<subseteq> set [2019, 2020])"
proof -
  have wf: "well_formed closes_2019_to_2021" by code_simp
  have ne: "[2019, 2020] \<noteq> ([] :: int list)" by simp
  have l1: "length (year_window closes_2019_to_2021 2019) = 3" by code_simp
  have l2: "length (year_window closes_2019_to_2021 2020) = 6" by code_simp
  have q1: "\<not> qualifies closes_2019_to_2021 2019" by code_simp
  have q2: "qualifies closes_2019_to_2021 2020" by code_simp
  have ev: "(case process_annual_data (Some closes_2019_to_2021) [2019, 2020] of
      Inr (Some r) \<Rightarrow>
        map fst (normalized r) = [2020] \<and> map fst (original r) = [2020] \<and>
        map fst (dates r) = [2020] \<and>
        create_summary_table (normalized r) (original r) [2019, 2020]
          = Inr (Some [(2020, ''90.00'', ''12.50'')])
    | _ \<Rightarrow> False)"
    by code_simp
  show ?thesis
    by (intro conjI wf ne l1 l2 q1 q2 ev year_inclusion [OF wf ne])
qed

text \<open>
  C4. For every year window with a close that is not missing, the stored original values
  are the window forward-filled and then backward-filled: every position holds the last
  known close at or before it, or in a leading gap the first known close after it, and no
  missing entry remains. The filled series is stored when the window has more than 5
  rows.
\<close>

theorem fill_leaves_no_missing:
  assumes "well_formed data" and "y \<in> set years"
    and "\<exists>v\<in>set (values_of (year_window data y)). \<not> isnan v"
  shows "\<exists>r. process_annual_data (Some data) years = Inr (Some r) \<and>
           (\<forall>v\<in>set (values_of (bfill (ffill (year_window data y)))). \<not> isnan v) \<and>
           (\<forall>i<length (year_window data y).
              values_of (bfill (ffill (year_window data y))) ! i
                = fill_spec (values_of (year_window data y)) i) \<and>
           index (bfill (ffill (year_window data y))) = index (year_window data y) \<and>
           map_of (original r) y =
             (if length (year_window data y) > 5 then Some (bfill (ffill (year_window data y)))
              else None)"
proof -
  let ?w = "year_window data y"
  from assms(2) have ne: "years \<noteq> []" by auto
  have run: "process_annual_data (Some data) years
      = Inr (Some (year_entries data years empty_results))"
    using assms(1) ne by (rule process_annual_data_ok)
  have valid: "\<forall>v\<in>set (values_of (bfill (ffill ?w))). \<not> isnan v"
    using filled_values_valid [OF assms(3)] by (simp add: values_of_filled)
  have nth: "\<forall>i<length ?w. values_of (bfill (ffill ?w)) ! i = fill_spec (values_of ?w) i"
    by (simp add: values_of_filled filled_values_nth length_values_of)
  have idx: "index (bfill (ffill ?w)) = index ?w"
    by (simp add: index_bfill index_ffill)
  have stored: "map_of (original (year_entries data years empty_results)) y =
      (if length ?w > 5 then Some (bfill (ffill ?w)) else None)"
    using assms(2,3) by (simp add: year_entries_original qualifies_def year_filled_def)
  from run valid nth idx stored show ?thesis by blast
qed

theorem fill_leaves_no_missing_witness:
  "well_formed closes_with_gaps \<and> (2021::int) \<in> set [2021] \<and>
   (\<exists>v\<in>set (values_of (year_window closes_with_gaps 2021)). \<not> isnan v) \<and>
   values_of (year_window closes_with_gaps 2021)
     = [NaN, Fin 100, NaN, Fin 120, Fin 130, NaN] \<and>
   values_of (bfill (ffill (year_window closes_with_gaps 2021)))
     = [Fin 100, Fin 100, Fin 100, Fin 120, Fin 130, Fin 130] \<and>
   (\<exists>r. process_annual_data (Some closes_with_gaps) [2021] = Inr (Some r) \<and>
        (\<forall>v\<in>set (values_of (bfill (ffill (year_window closes_with_gaps 2021)))). \<not> isnan v) \<and>
        map_of (original r) 2021 = Some (bfill (ffill (year_window closes_with_gaps 2021))))"
proof -
  have wf: "well_formed closes_with_gaps" by code_simp
  have mem: "(2021::int) \<in> set [2021]" by simp
  have ex: "\<exists>v\<in>set (values_of (year_window closes_with_gaps 2021)). \<not> isnan v" by code_simp
  have raw: "values_of (year_window closes_with_gaps 2021)
     = [NaN, Fin 100, NaN, Fin 120, Fin 130, NaN]" by code_simp
  have filled: "values_of (bfill (ffill (year_window closes_with_gaps 2021)))
     = [Fin 100, Fin 100, Fin 100, Fin 120, Fin 130, Fin 130]" by code_simp
  have len: "length (year_window closes_with_gaps 2021) > 5" by code_simp
  from fill_leaves_no_missing [OF wf mem ex] len wf ex raw filled show ?thesis
    by (simp only: mem if_True simp_thms) blast
qed

text \<open>
  C5. When every requested year with rows in the normalized dictionary has rows in the
  original one, \<^verbatim>\<open>create_summary_table\<close> raises nothing. Its rows are the requested
  years that have a normalized series with rows, each at its first occurrence in the
  caller's order, and the row of a year holds the last original value and the last
  normalized value by position, rendered with two decimals. A year that is not a key or
  whose series is empty has no row, and without any row the table is \<^verbatim>\<open>None\<close>.
\<close>

theorem summary_rows:
  assumes "\<forall>y\<in>set years. has_rows annual_data y \<longrightarrow> has_rows annual_original y"
  shows "create_summary_table annual_data annual_original years =
           Inr (if filter (has_rows annual_data) years = [] then None
                else Some (map (\<lambda>y. (y, fmt_2f (snd (last (the (map_of annual_original y)))),
                                         fmt_2f (snd (last (the (map_of annual_data y))))))
                             (first_occurrences (filter (has_rows annual_data) years)))) \<and>
         (distinct years \<longrightarrow>
            first_occurrences (filter (has_rows annual_data) years)
              = filter (has_rows annual_data) years)"
  using create_summary_table_ok [OF assms]
  by (simp add: last_value_def first_occurrences_distinct)

theorem summary_rows_witness:
  "has_rows example_original 2021 \<and> has_rows example_original 2020 \<and>
   \<not> has_rows example_normalized 2019 \<and> \<not> has_rows example_normalized 2018 \<and>
   distinct [2021, 2020, 2019, 2018 :: int] \<and>
   filter (has_rows example_normalized) [2021, 2020, 2019, 2018] = [2021, 2020] \<and>
   create_summary_table example_normalized example_original [2021, 2020, 2019, 2018]
     = Inr (Some [(2021, ''121.00'', ''21.00''), (2020, ''90.00'', ''12.50'')])"
proof -
  have r1: "has_rows example_original 2021" by code_simp
  have r2: "has_rows example_original 2020" by code_simp
  have r3: "\<not> has_rows example_normalized 2019" by code_simp
  have r4: "\<not> has_rows example_normalized 2018" by code_simp
  from r1 r2 r3 r4 have h: "\<forall>y\<in>set [2021, 2020, 2019, 2018].
      has_rows example_normalized y \<longrightarrow> has_rows example_original y" by simp
  have d: "distinct [2021, 2020, 2019, 2018 :: int]" by simp
  have f: "filter (has_rows example_normalized) [2021, 2020, 2019, 2018] = [2021, 2020]"
    by code_simp
  have rows: "map (\<lambda>y. (y, fmt_2f (snd (last (the (map_of example_original y)))),
                           fmt_2f (snd (last (the (map_of example_normalized y))))))
                [2021, 2020]
      = [(2021, ''121.00'', ''21.00''), (2020, ''90.00'', ''12.50'')]"
    by code_simp
  from summary_rows [OF h] d f rows
  have "create_summary_table example_normalized example_original [2021, 2020, 2019, 2018]
     = Inr (Some [(2021, ''121.00'', ''21.00''), (2020, ''90.00'', ''12.50'')])"
    by (simp only: simp_thms list.simps if_False)
  with r1 r2 r3 r4 d f show ?thesis by (intro conjI)
qed

text \<open>
  C6. For every year window that survives filtering, the synthetic date at each position
  has the month and the day of the true date at that position and the year 2000, and
  two synthetic dates of the window compare as their true dates do: on a frame in
  chronological order both sequences are strictly increasing.
\<close>

theorem synthetic_dates_keep_order:
  assumes "well_formed data" and "y \<in> set years" and "qualifies data y"
  shows "\<exists>r ns ds. process_annual_data (Some data) years = Inr (Some r) \<and>
           map_of (normalized r) y = Some ns \<and> map_of (dates r) y = Some ds \<and>
           length ns = length ds \<and>
           (\<forall>i<length ds. fst (ns ! i) = \<lparr>year = 2000, month = month (ds ! i), day = day (ds ! i)\<rparr>) \<and>
           (\<forall>i<length ds. \<forall>j<length ds.
              ts_less (fst (ns ! i)) (fst (ns ! j)) \<longleftrightarrow> ts_less (ds ! i) (ds ! j)) \<and>
           (sorted_wrt ts_less (index data) \<longrightarrow>
              sorted_wrt ts_less ds \<and> sorted_wrt ts_less (index ns))"
proof -
  let ?r = "year_entries data years empty_results"
  let ?w = "year_window data y"
  from assms(2) have ne: "years \<noteq> []" by auto
  have run: "process_annual_data (Some data) years = Inr (Some ?r)"
    using assms(1) ne by (rule process_annual_data_ok)
  have ns: "map_of (normalized ?r) y = Some (year_normalized data y)"
    using assms(2,3) by (simp add: year_entries_normalized)
  have ds: "map_of (dates ?r) y = Some (index ?w)"
    using assms(2,3) by (simp add: year_entries_dates)
  have len: "length (year_normalized data y) = length (index ?w)"
    by (simp add: length_year_normalized index_def)
  have yr: "\<forall>t\<in>set (index ?w). year t = y"
    by (simp add: year_window_year)
  have pin: "\<forall>i<length (index ?w). fst (year_normalized data y ! i)
      = \<lparr>year = 2000, month = month (index ?w ! i), day = day (index ?w ! i)\<rparr>"
    by (simp add: index_def year_normalized_fst [unfolded index_def] synthetic_date_def)
  have ord: "\<forall>i<length (index ?w). \<forall>j<length (index ?w).
      ts_less (fst (year_normalized data y ! i)) (fst (year_normalized data y ! j))
        \<longleftrightarrow> ts_less (index ?w ! i) (index ?w ! j)"
  proof (intro allI impI)
    fix i j assume i: "i < length (index ?w)" and j: "j < length (index ?w)"
    then have "year (index ?w ! i) = year (index ?w ! j)" using yr by simp
    then have "ts_less (synthetic_date (index ?w ! i)) (synthetic_date (index ?w ! j))
        \<longleftrightarrow> ts_less (index ?w ! i) (index ?w ! j)"
      by (rule ts_less_synthetic)
    moreover have "fst (year_normalized data y ! i) = synthetic_date (index ?w ! i)"
      using i by (simp add: year_normalized_fst index_def)
    moreover have "fst (year_normalized data y ! j) = synthetic_date (index ?w ! j)"
      using j by (simp add: year_normalized_fst index_def)
    ultimately show "ts_less (fst (year_normalized data y ! i)) (fst (year_normalized data y ! j))
        \<longleftrightarrow> ts_less (index ?w ! i) (index ?w ! j)" by simp
  qed
  have srt: "sorted_wrt ts_less (index data) \<longrightarrow>
      sorted_wrt ts_less (index ?w) \<and> sorted_wrt ts_less (index (year_normalized data y))"
    using yr by (auto simp: index_year_normalized intro: sorted_wrt_year_window sorted_wrt_synthetic)
  from run ns ds len pin ord srt show ?thesis by blast
qed

theorem synthetic_dates_keep_order_witness:
  "well_formed closes_2019_to_2021 \<and> (2020::int) \<in> set [2021, 2020, 2019] \<and>
   qualifies closes_2019_to_2021 2020 \<and> sorted_wrt ts_less (index closes_2019_to_2021) \<and>
   (case process_annual_data (Some closes_2019_to_2021) [2021, 2020, 2019] of
      Inr (Some r) \<Rightarrow>
        map_of (dates r) 2020 = Some [on_date 2020 2 26, on_date 2020 2 27, on_date 2020 2 28,
                                       on_date 2020 2 29, on_date 2020 3 2, on_date 2020 3 3] \<and>
        map_option index (map_of (normalized r) 2020)
          = Some [on_date 2000 2 26, on_date 2000 2 27, on_date 2000 2 28,
                  on_date 2000 2 29, on_date 2000 3 2, on_date 2000 3 3]
    | _ \<Rightarrow> False) \<and>
   (\<exists>r ns ds. process_annual_data (Some closes_2019_to_2021) [2021, 2020, 2019] = Inr (Some r) \<and>
           map_of (normalized r) 2020 = Some ns \<and> map_of (dates r) 2020 = Some ds \<and>
           length ns = length ds \<and>
           (\<forall>i<length ds. fst (ns ! i) = \<lparr>year = 2000, month = month (ds ! i), day = day (ds ! i)\<rparr>) \<and>
           (\<forall>i<length ds. \<forall>j<length ds.
              ts_less (fst (ns ! i)) (fst (ns ! j)) \<longleftrightarrow> ts_less (ds ! i) (ds ! j)) \<and>
           (sorted_wrt ts_less (index closes_2019_to_2021) \<longrightarrow>
              sorted_wrt ts_less ds \<and> sorted_wrt ts_less (index ns)))"
proof -
  have wf: "well_formed closes_2019_to_2021" by code_simp
  have mem: "(2020::int) \<in> set [2021, 2020, 2019]" by simp
  have q: "qualifies closes_2019_to_2021 2020" by code_simp
  have srt: "sorted_wrt ts_less (index closes_2019_to_2021)" by code_simp
  have ev: "(case process_annual_data (Some closes_2019_to_2021) [2021, 2020, 2019] of
      Inr (Some r) \<Rightarrow>
        map_of (dates r) 2020 = Some [on_date 2020 2 26, on_date 2020 2 27, on_date 2020 2 28,
                                       on_date 2020 2 29, on_date 2020 3 2, on_date 2020 3 3] \<and>
        map_option index (map_of (normalized r) 2020)
          = Some [on_date 2000 2 26, on_date 2000 2 27, on_date 2000 2 28,
                  on_date 2000 2 29, on_date 2000 3 2, on_date 2000 3 3]
    | _ \<Rightarrow> False)"
    by code_simp
  show ?thesis
    by (intro conjI wf mem q srt ev synthetic_dates_keep_order [OF wf mem q])
qed

text \<open>
  C7. For every year window of a frame with distinct, existing dates, building the
  synthetic index raises nothing and is injective: no two rows of the window receive
  the same synthetic date. The reference year 2000 is a leap year, so a window that
  contains February 29 is mapped like any other.
\<close>

theorem synthetic_dates_injective:
  assumes "well_formed data"
  shows "\<exists>ss. common_year_index (index (year_window data y)) = Inr ss \<and>
           length ss = length (year_window data y) \<and> distinct ss \<and>
           (\<forall>i<length ss. \<forall>j<length ss. ss ! i = ss ! j \<longrightarrow> i = j) \<and>
           (y \<in> set years \<and> qualifies data y \<longrightarrow>
              (\<exists>r ns. process_annual_data (Some data) years = Inr (Some r) \<and>
                 map_of (normalized r) y = Some ns \<and> index ns = ss))"
proof -
  let ?w = "year_window data y"
  let ?ss = "map synthetic_date (index ?w)"
  from assms have d: "distinct (index data)" and v: "\<forall>t\<in>set (index data). valid_date t"
    by (simp_all add: well_formed_def)
  have cyi: "common_year_index (index ?w) = Inr ?ss"
    using v set_year_window [of data y] by (intro common_year_index_valid) auto
  have len: "length ?ss = length ?w" by (simp add: index_def)
  have yr: "\<forall>t\<in>set (index ?w). year t = y" by (simp add: year_window_year)
  have dist: "distinct ?ss"
    using yr distinct_year_window [OF d] by (rule distinct_synthetic)
  then have inj: "\<forall>i<length ?ss. \<forall>j<length ?ss. ?ss ! i = ?ss ! j \<longrightarrow> i = j"
    by (auto simp: distinct_conv_nth)
  have pipe: "y \<in> set years \<and> qualifies data y \<longrightarrow>
      (\<exists>r ns. process_annual_data (Some data) years = Inr (Some r) \<and>
         map_of (normalized r) y = Some ns \<and> index ns = ?ss)"
  proof
    assume a: "y \<in> set years \<and> qualifies data y"
    then have ne: "years \<noteq> []" by auto
    have run: "process_annual_data (Some data) years
        = Inr (Some (year_entries data years empty_results))"
      using assms ne by (rule process_annual_data_ok)
    have ns: "map_of (normalized (year_entries data years empty_results)) y
        = Some (year_normalized data y)"
      using a by (simp add: year_entries_normalized)
    from run ns index_year_normalized [of data y]
    show "\<exists>r ns. process_annual_data (Some data) years = Inr (Some r) \<and>
         map_of (normalized r) y = Some ns \<and> index ns = ?ss" by blast
  qed
  from cyi len dist inj pipe show ?thesis by blast
qed

theorem synthetic_dates_injective_witness:
  "well_formed closes_2019_to_2021 \<and> qualifies closes_2019_to_2021 2020 \<and>
   (2020::int) \<in> set [2021, 2020, 2019] \<and>
   index (year_window closes_2019_to_2021 2020)
     = [on_date 2020 2 26, on_date 2020 2 27, on_date 2020 2 28,
        on_date 2020 2 29, on_date 2020 3 2, on_date 2020 3 3] \<and>
   common_year_index (index (year_window closes_2019_to_2021 2020))
     = Inr [on_date 2000 2 26, on_date 2000 2 27, on_date 2000 2 28,
            on_date 2000 2 29, on_date 2000 3 2, on_date 2000 3 3] \<and>
   (\<exists>ss. common_year_index (index (year_window closes_2019_to_2021 2020)) = Inr ss \<and>
           length ss = length (year_window closes_2019_to_2021 2020) \<and> distinct ss \<and>
           (\<forall>i<length ss. \<forall>j<length ss. ss ! i = ss ! j \<longrightarrow> i = j) \<and>
           ((2020::int) \<in> set [2021, 2020, 2019] \<and> qualifies closes_2019_to_2021 2020 \<longrightarrow>
              (\<exists>r ns. process_annual_data (Some closes_2019_to_2021) [2021, 2020, 2019]
                         = Inr (Some r) \<and>
                 map_of (normalized r) 2020 = Some ns \<and> index ns = ss)))"
proof -
  have wf: "well_formed closes_2019_to_2021" by code_simp
  have q: "qualifies closes_2019_to_2021 2020" by code_simp
  have mem: "(2020::int) \<in> set [2021, 2020, 2019]" by simp
  have w: "index (year_window closes_2019_to_2021 2020)
     = [on_date 2020 2 26, on_date 2020 2 27, on_date 2020 2 28,
        on_date 2020 2 29, on_date 2020 3 2, on_date 2020 3 3]" by code_simp
  have c: "common_year_index (index (year_window closes_2019_to_2021 2020))
     = Inr [on_date 2000 2 26, on_date 2000 2 27, on_date 2000 2 28,
            on_date 2000 2 29, on_date 2000 3 2, on_date 2000 3 3]" by code_simp
  show ?thesis
    by (intro conjI wf q mem w c synthetic_dates_injective [OF wf])
qed

text \<open>
  C8. For the trace of a year whose original series and true dates are in the
  dictionaries: when \<^verbatim>\<open>create_hover_text\<close> returns its labels, there is one label per
  position that has a true date, the trace is built, and the labels are attached to it
  if and only if their number is the length of the plotted series; otherwise the hover
  text of the trace is \<^verbatim>\<open>None\<close>. The only failure of \<^verbatim>\<open>create_hover_text\<close> is the
  \<^verbatim>\<open>IndexError\<close> of an original series shorter than both other sequences, before
  any label count exists.
\<close>

theorem hover_text_guard:
  assumes "map_of (original annual_results) y = Some original_series"
    and "map_of (dates annual_results) y = Some actual_dates"
  shows "(case create_hover_text actual_dates original_series year_series of
            Inr labels \<Rightarrow>
              length labels = min (length actual_dates) (length year_series) \<and>
              (\<exists>tr. year_trace annual_results show_percent i y year_series = Inr tr \<and>
                 length (trace_x tr) = length year_series \<and>
                 (hovertext tr = Some labels \<longleftrightarrow> length labels = length (trace_x tr)) \<and>
                 (length labels \<noteq> length (trace_x tr) \<longrightarrow> hovertext tr = None))
          | Inl e \<Rightarrow>
              e = IndexError \<and>
              length original_series < min (length actual_dates) (length year_series) \<and>
              year_trace annual_results show_percent i y year_series = Inl IndexError)"
proof (cases "create_hover_text actual_dates original_series year_series")
  case (Inl e)
  then have "e = IndexError \<and>
      length original_series < min (length actual_dates) (0 + length year_series)"
    unfolding create_hover_text_def by (rule hover_loop_fails)
  with Inl assms show ?thesis by (simp add: year_trace_def)
next
  case (Inr labels)
  then have len: "length labels = min (length actual_dates - 0) (length year_series)"
    unfolding create_hover_text_def by (rule hover_loop_length)
  with Inr assms show ?thesis
    by (simp add: year_trace_def Let_def length_index)
qed

theorem hover_text_guard_witness:
  "map_of (original mismatched_results) 2021 = Some (the (map_of example_original 2021)) \<and>
   map_of (dates mismatched_results) 2021 = Some [on_date 2021 1 4, on_date 2021 1 5] \<and>
   map_of (original mismatched_results) 2020 = Some (the (map_of example_original 2020)) \<and>
   map_of (dates mismatched_results) 2020 = Some [on_date 2020 2 28, on_date 2020 2 29] \<and>
   create_hover_text [on_date 2021 1 4, on_date 2021 1 5] (the (map_of example_original 2021))
       series_2021
     = Inr [''<b>Date</b>: 2021-01-04<br><b>Day</b>: Monday<br><b>Value</b>: 100.00<br><b>Performance</b>: 0.00%'',
            ''<b>Date</b>: 2021-01-05<br><b>Day</b>: Tuesday<br><b>Value</b>: 110.00<br><b>Performance</b>: 10.00%''] \<and>
   length series_2021 = 3 \<and>
   map_sum id hovertext (year_trace mismatched_results True 0 2021 series_2021) = Inr None \<and>
   map_sum id hovertext (year_trace mismatched_results True 1 2020 series_2020)
     = Inr (Some [''<b>Date</b>: 2020-02-28<br><b>Day</b>: Friday<br><b>Value</b>: 80.00<br><b>Performance</b>: 0.00%'',
                  ''<b>Date</b>: 2020-02-29<br><b>Day</b>: Saturday<br><b>Value</b>: 90.00<br><b>Performance</b>: 12.50%'']) \<and>
   (case create_hover_text [on_date 2021 1 4, on_date 2021 1 5]
           (the (map_of example_original 2021)) series_2021 of
            Inr labels \<Rightarrow>
              length labels = min (length [on_date 2021 1 4, on_date 2021 1 5]) (length series_2021) \<and>
              (\<exists>tr. year_trace mismatched_results True 0 2021 series_2021 = Inr tr \<and>
                 length (trace_x tr) = length series_2021 \<and>
                 (hovertext tr = Some labels \<longleftrightarrow> length labels = length (trace_x tr)) \<and>
                 (length labels \<noteq> length (trace_x tr) \<longrightarrow> hovertext tr = None))
          | Inl e \<Rightarrow>
              e = IndexError \<and>
              length (the (map_of example_original 2021))
                < min (length [on_date 2021 1 4, on_date 2021 1 5]) (length series_2021) \<and>
              year_trace mismatched_results True 0 2021 series_2021 = Inl IndexError)"
proof -
  have o1: "map_of (original mismatched_results) 2021 = Some (the (map_of example_original 2021))"
    by code_simp
  have d1: "map_of (dates mismatched_results) 2021 = Some [on_date 2021 1 4, on_date 2021 1 5]"
    by code_simp
  have o2: "map_of (original mismatched_results) 2020 = Some (the (map_of example_original 2020))"
    by code_simp
  have d2: "map_of (dates mismatched_results) 2020 = Some [on_date 2020 2 28, on_date 2020 2 29]"
    by code_simp
  have h1: "create_hover_text [on_date 2021 1 4, on_date 2021 1 5]
       (the (map_of example_original 2021)) series_2021
     = Inr [''<b>Date</b>: 2021-01-04<br><b>Day</b>: Monday<br><b>Value</b>: 100.00<br><b>Performance</b>: 0.00%'',
            ''<b>Date</b>: 2021-01-05<br><b>Day</b>: Tuesday<br><b>Value</b>: 110.00<br><b>Performance</b>: 10.00%'']"
    by code_simp
  have l: "length series_2021 = 3" by code_simp
  have t1: "map_sum id hovertext (year_trace mismatched_results True 0 2021 series_2021) = Inr None"
    by code_simp
  have t2: "map_sum id hovertext (year_trace mismatched_results True 1 2020 series_2020)
     = Inr (Some [''<b>Date</b>: 2020-02-28<br><b>Day</b>: Friday<br><b>Value</b>: 80.00<br><b>Performance</b>: 0.00%'',
                  ''<b>Date</b>: 2020-02-29<br><b>Day</b>: Saturday<br><b>Value</b>: 90.00<br><b>Performance</b>: 12.50%''])"
    by code_simp
  show ?thesis
    by (intro conjI o1 d1 o2 d2 h1 l t1 t2 hover_text_guard [OF o1 d1])
qed

text \<open>
  C9. For a well-formed frame and a selection of years, the dictionaries of
  \<^verbatim>\<open>process_annual_data\<close> and the summary table do not depend on the display mode, and
  the pages of the two modes are built from the same traces: the flag selects, trace by
  trace, whether the normalized or the original values of the year are plotted, and
  the wording of the title, of the axis title and of the tick suffix. Everything else
  on the page is the same in both modes.
\<close>

theorem display_mode_noninterference:
  assumes "well_formed data" and "years \<noteq> []"
  shows "\<exists>r tbl ts. process_annual_data (Some data) years = Inr (Some r) \<and>
           create_summary_table (normalized r) (original r) years = Inr tbl \<and>
           length ts = length (filter (qualifies data) years) \<and>
           (\<forall>show_percent.
              process_and_display_data (Some data) ticker years show_percent =
                (if normalized r = [] then Inr NoCompleteDataWarning
                 else Inr (Rendered
                   \<lparr>traces =
                      map2 (\<lambda>tr y. tr\<lparr>trace_y :=
                              values_of (the (map_of (if show_percent then normalized r
                                                      else original r) y))\<rparr>)
                        ts (filter (qualifies data) years),
                    title = upper ticker @ '' - Annual ''
                              @ (if show_percent then ''Performance (%)'' else ''Value''),
                    yaxis_title = (if show_percent then ''Performance (%)'' else ''Value''),
                    ticksuffix = (if show_percent then ''%'' else [])\<rparr> tbl)))"
proof -
  let ?r = "year_entries data years empty_results"
  have run: "process_annual_data (Some data) years = Inr (Some ?r)"
    using assms by (rule process_annual_data_ok)
  obtain tbl where tbl: "create_summary_table (normalized ?r) (original ?r) years = Inr tbl"
    using summary_pipeline [of data years] by blast
  obtain ts where ts: "chart_loop ?r True 0 years = Inr ts"
    using chart_loop_pipeline [of data years 0 years] by blast
  have len: "length ts = length (filter (qualifies data) years)"
    using chart_loop_flag [OF ts, of True, THEN conjunct2] by (simp only: plotted_pipeline)
  have page: "process_and_display_data (Some data) ticker years b =
      (if normalized ?r = [] then Inr NoCompleteDataWarning
       else Inr (Rendered
         \<lparr>traces =
            map2 (\<lambda>tr y. tr\<lparr>trace_y :=
                    values_of (the (map_of (if b then normalized ?r else original ?r) y))\<rparr>)
              ts (filter (qualifies data) years),
          title = upper ticker @ '' - Annual '' @ (if b then ''Performance (%)'' else ''Value''),
          yaxis_title = (if b then ''Performance (%)'' else ''Value''),
          ticksuffix = (if b then ''%'' else [])\<rparr> tbl))" for b
  proof -
    have "chart_loop ?r b 0 years =
        Inr (map2 (\<lambda>tr y. tr\<lparr>trace_y :=
                     values_of (the (map_of (if b then normalized ?r else original ?r) y))\<rparr>)
              ts (filter (qualifies data) years))"
      using chart_loop_flag [OF ts, of b] by (simp only: plotted_pipeline)
    then show ?thesis
      using assms(2) run tbl
      by (simp add: process_and_display_data_def create_performance_chart_def)
  qed
  from run tbl len page show ?thesis by blast
qed

theorem display_mode_noninterference_witness:
  "well_formed closes_2019_to_2021 \<and> [2021, 2020, 2019] \<noteq> ([] :: int list) \<and>
   map_sum id (\<lambda>p. case p of Rendered fig tbl \<Rightarrow> (map trace_y (traces fig), tbl)
                      | _ \<Rightarrow> ([], None))
       (process_and_display_data (Some closes_2019_to_2021) ''aapl'' [2021, 2020, 2019] True)
     = Inr ([map Fin [0, 10, 21, 15, 18, 21], map Fin [0, - 5, - 5, 5, 10, 25 / 2]],
            Some [(2021, ''121.00'', ''21.00''), (2020, ''90.00'', ''12.50'')]) \<and>
   map_sum id (\<lambda>p. case p of Rendered fig tbl \<Rightarrow> (map trace_y (traces fig), tbl)
                      | _ \<Rightarrow> ([], None))
       (process_and_display_data (Some closes_2019_to_2021) ''aapl'' [2021, 2020, 2019] False)
     = Inr ([map Fin [100, 110, 121, 115, 118, 121], map Fin [80, 76, 76, 84, 88, 90]],
            Some [(2021, ''121.00'', ''21.00''), (2020, ''90.00'', ''12.50'')]) \<and>
   (\<exists>r tbl ts. process_annual_data (Some closes_2019_to_2021) [2021, 2020, 2019] = Inr (Some r) \<and>
           create_summary_table (normalized r) (original r) [2021, 2020, 2019] = Inr tbl \<and>
           length ts = length (filter (qualifies closes_2019_to_2021) [2021, 2020, 2019]) \<and>
           (\<forall>show_percent.
              process_and_display_data (Some closes_2019_to_2021) ''aapl'' [2021, 2020, 2019]
                  show_percent =
                (if normalized r = [] then Inr NoCompleteDataWarning
                 else Inr (Rendered
                   \<lparr>traces =
                      map2 (\<lambda>tr y. tr\<lparr>trace_y :=
                              values_of (the (map_of (if show_percent then normalized r
                                                      else original r) y))\<rparr>)
                        ts (filter (qualifies closes_2019_to_2021) [2021, 2020, 2019]),
                    title = upper ''aapl'' @ '' - Annual ''
                              @ (if show_percent then ''Performance (%)'' else ''Value''),
                    yaxis_title = (if show_percent then ''Performance (%)'' else ''Value''),
                    ticksuffix = (if show_percent then ''%'' else [])\<rparr> tbl))))"
proof -
  have wf: "well_formed closes_2019_to_2021" by code_simp
  have ne: "[2021, 2020, 2019] \<noteq> ([] :: int list)" by simp
  have p1: "map_sum id (\<lambda>p. case p of Rendered fig tbl \<Rightarrow> (map trace_y (traces fig), tbl)
                      | _ \<Rightarrow> ([], None))
       (process_and_display_data (Some closes_2019_to_2021) ''aapl'' [2021, 2020, 2019] True)
     = Inr ([map Fin [0, 10, 21, 15, 18, 21], map Fin [0, - 5, - 5, 5, 10, 25 / 2]],
            Some [(2021, ''121.00'', ''21.00''), (2020, ''90.00'', ''12.50'')])"
    by code_simp
  have p2: "map_sum id (\<lambda>p. case p of Rendered fig tbl \<Rightarrow> (map trace_y (traces fig), tbl)
                      | _ \<Rightarrow> ([], None))
       (process_and_display_data (Some closes_2019_to_2021) ''aapl'' [2021, 2020, 2019] False)
     = Inr ([map Fin [100, 110, 121, 115, 118, 121], map Fin [80, 76, 76, 84, 88, 90]],
            Some [(2021, ''121.00'', ''21.00''), (2020, ''90.00'', ''12.50'')])"
    by code_simp
  show ?thesis
    by (intro conjI wf ne p1 p2 display_mode_noninterference [OF wf ne])
qed

text \<open>
  C10. For every year window that survives filtering, the filled value at position 0 is
  the baseline, also when the first raw close was missing, and the normalized value at
  position 0 is 0.0 exactly when the baseline is neither a zero nor an infinity. With a
  zero baseline the division is 0.0 / 0.0 and the first normalized value is NaN.
\<close>

theorem first_normalized_value:
  assumes "well_formed data" and "y \<in> set years" and "qualifies data y"
  shows "\<exists>r os ns b. process_annual_data (Some data) years = Inr (Some r) \<and>
           map_of (original r) y = Some os \<and> map_of (normalized r) y = Some ns \<and>
           baseline (year_window data y) = Some b \<and>
           snd (os ! 0) = b \<and>
           (snd (ns ! 0) = Fin 0 \<longleftrightarrow> \<not> is_zero b \<and> \<not> is_inf b)"
proof -
  let ?r = "year_entries data years empty_results"
  from assms(2) have ne: "years \<noteq> []" by auto
  have run: "process_annual_data (Some data) years = Inr (Some ?r)"
    using assms(1) ne by (rule process_annual_data_ok)
  from assms(3) obtain b where b: "baseline (year_window data y) = Some b" "\<not> isnan b"
    by (blast dest: baseline_qualifies)
  have os: "map_of (original ?r) y = Some (year_filled data y)"
    using assms(2,3) by (simp add: year_entries_original)
  have ns: "map_of (normalized ?r) y = Some (year_normalized data y)"
    using assms(2,3) by (simp add: year_entries_normalized)
  have first: "snd (year_filled data y ! 0) = b" using b(1) by (rule year_filled_first)
  from assms(3) have pos: "0 < length (year_window data y)" by (auto simp: qualifies_def)
  from year_normalized_nth [OF pos b(1)] first
  have "snd (year_normalized data y ! 0) = norm_value b b" by simp
  with norm_value_self [OF b(2)]
  have zero: "snd (year_normalized data y ! 0) = Fin 0 \<longleftrightarrow> \<not> is_zero b \<and> \<not> is_inf b" by simp
  from run os ns b(1) first zero show ?thesis by blast
qed

text \<open>A window whose first raw close is missing: position 0 is filled with the baseline 100.\<close>

theorem first_normalized_value_witness:
  "well_formed closes_with_gaps \<and> (2021::int) \<in> set [2021] \<and> qualifies closes_with_gaps 2021 \<and>
   snd (closes_with_gaps ! 0) = NaN \<and>
   (\<exists>r os ns. process_annual_data (Some closes_with_gaps) [2021] = Inr (Some r) \<and>
        map_of (original r) 2021 = Some os \<and> map_of (normalized r) 2021 = Some ns \<and>
        snd (os ! 0) = Fin 100 \<and> snd (ns ! 0) = Fin 0)"
proof -
  have wf: "well_formed closes_with_gaps" by code_simp
  have mem: "(2021::int) \<in> set [2021]" by simp
  have q: "qualifies closes_with_gaps 2021" by code_simp
  have raw: "snd (closes_with_gaps ! 0) = NaN" by code_simp
  have b: "baseline (year_window closes_with_gaps 2021) = Some (Fin 100)" by code_simp
  from first_normalized_value [OF wf mem q] b wf q raw show ?thesis
    by (simp only: mem simp_thms) auto
qed

text \<open>
  A window whose first close is 0.0: the baseline is zero, the first normalized value is
  NaN and the others are infinite.
\<close>

theorem zero_baseline_counterexample:
  "process_annual_data (Some closes_from_zero) [2021] =
     Inr (Some \<lparr>normalized =
                  [(2021, zip (map (on_date 2000 1) [4, 5, 6, 7, 8, 11])
                              [NaN, PInf, PInf, PInf, PInf, PInf])],
                original = [(2021, closes_from_zero)],
                dates = [(2021, map (on_date 2021 1) [4, 5, 6, 7, 8, 11])]\<rparr>)"
  by code_simp

end
